theory Spec2Isabelle
  imports Main "HOL-Library.Word"
begin

section \<open>Data model (database.py, create\_tables)\<close>

text \<open>
  Timestamps. The store keeps \<open>datetime.isoformat()\<close> strings and compares them either
  after \<open>datetime.fromisoformat\<close> (Python) or as TEXT (SQLite); for the fixed-width ISO
  layout both orders agree with the order of the instants, so a timestamp is modelled as
  the number of microseconds of the instant. A nullable column is an \<open>option\<close>.
  Every operation that reads \<open>datetime.now()\<close> takes the instant as a parameter.
\<close>

type_synonym timestamp = int

text \<open>
  A Python \<open>str\<close> is a sequence of Unicode code points. File names and paths are kept
  as lists of code points, each an integer; \<open>ustr\<close> embeds a literal. All other text
  columns are plain strings: the code only stores them or compares them with literals.
\<close>

type_synonym ustring = "int list"

definition ustr :: "string \<Rightarrow> ustring" where
  "ustr s = map of_char s"

definition timedelta_days :: "int \<Rightarrow> int" where
  "timedelta_days d = d * 86400000000"

text \<open>Table \<open>users\<close>. \<open>payment_status\<close> is a TEXT column, so a string.\<close>

record user =
  user_id :: int
  username :: string
  join_date :: timestamp
  expiry_date :: "timestamp option"
  payment_status :: string
  total_downloads :: int
  is_admin :: int

text \<open>Table \<open>configs\<close>.\<close>

record config =
  config_id :: int
  filename :: ustring
  category :: string
  original_filename :: ustring
  file_size :: int
  upload_date :: timestamp
  c_expiry_date :: "timestamp option"
  c_total_downloads :: int
  is_active :: int

text \<open>Table \<open>payments\<close>. The amount is the constant 200.0 in the code; kept as an integer.\<close>

record payment =
  payment_id :: int
  p_user_id :: int
  amount :: int
  payment_date :: timestamp
  payment_proof :: string
  p_status :: string
  admin_note :: "string option"
  processed_date :: "timestamp option"

text \<open>Table \<open>downloads\<close>.\<close>

record download =
  download_id :: int
  d_user_id :: int
  d_config_id :: int
  download_date :: timestamp

text \<open>
  The database: each table is the list of its rows, with the AUTOINCREMENT counters.
  The \<open>try/except\<close> around every statement only catches store failures, which are
  not modelled: the store is always available.
\<close>

record database =
  users :: "user list"
  configs :: "config list"
  payments :: "payment list"
  downloads :: "download list"
  next_config_id :: int
  next_payment_id :: int
  next_download_id :: int

definition operator_id :: int where
  "operator_id = 7108127485"

text \<open>\<open>INSERT OR IGNORE INTO users\<close>: the primary key decides whether the row is added.\<close>

definition insert_or_ignore_user :: "user \<Rightarrow> user list \<Rightarrow> user list" where
  "insert_or_ignore_user u us =
     (if \<exists>v \<in> set us. user_id v = user_id u then us else us @ [u])"

text \<open>\<open>create_tables\<close> on an empty store: the operator row is the only row.\<close>

definition create_tables :: "timestamp \<Rightarrow> database" where
  "create_tables now =
     \<lparr> users = insert_or_ignore_user
         \<lparr> user_id = operator_id, username = ''nexanetadmin'', join_date = now,
           expiry_date = None, payment_status = ''approved'', total_downloads = 0,
           is_admin = 1 \<rparr> [],
       configs = [], payments = [], downloads = [],
       next_config_id = 1, next_payment_id = 1, next_download_id = 1 \<rparr>"

section \<open>User operations (database.py)\<close>

definition add_user :: "timestamp \<Rightarrow> int \<Rightarrow> string \<Rightarrow> database \<Rightarrow> database" where
  "add_user now uid uname db =
     db\<lparr> users := insert_or_ignore_user
          \<lparr> user_id = uid, username = uname, join_date = now,
            expiry_date = None, payment_status = ''pending'', total_downloads = 0,
            is_admin = 0 \<rparr> (users db) \<rparr>"

definition get_user :: "database \<Rightarrow> int \<Rightarrow> user option" where
  "get_user db uid = find (\<lambda>u. user_id u = uid) (users db)"

text \<open>\<open>UPDATE users SET ... WHERE user_id = ?\<close>.\<close>

definition update_users_where :: "int \<Rightarrow> (user \<Rightarrow> user) \<Rightarrow> user list \<Rightarrow> user list" where
  "update_users_where uid f us = map (\<lambda>u. if user_id u = uid then f u else u) us"

text \<open>
  \<open>update_user_expiry\<close>: \<open>get_user(user_id)['expiry_date']\<close> raises on a missing
  user, the \<open>except\<close> logs it and nothing is written.
\<close>

definition update_user_expiry :: "timestamp \<Rightarrow> int \<Rightarrow> int \<Rightarrow> database \<Rightarrow> database" where
  "update_user_expiry now uid days db =
     (case get_user db uid of
        None \<Rightarrow> db
      | Some u \<Rightarrow>
          (let new_expiry =
                 (case expiry_date u of
                    Some current_date \<Rightarrow> current_date + timedelta_days days
                  | None \<Rightarrow> now + timedelta_days days)
           in db\<lparr> users := update_users_where uid
                  (\<lambda>v. v\<lparr> expiry_date := Some new_expiry, payment_status := ''approved'' \<rparr>)
                  (users db) \<rparr>))"

definition update_payment_status :: "int \<Rightarrow> string \<Rightarrow> database \<Rightarrow> database" where
  "update_payment_status uid status db =
     db\<lparr> users := update_users_where uid (\<lambda>v. v\<lparr> payment_status := status \<rparr>) (users db) \<rparr>"

definition increment_downloads :: "int \<Rightarrow> database \<Rightarrow> database" where
  "increment_downloads uid db =
     db\<lparr> users := update_users_where uid
          (\<lambda>v. v\<lparr> total_downloads := total_downloads v + 1 \<rparr>) (users db) \<rparr>"

text \<open>
  \<open>delete_expired_users\<close>: the WHERE clause of the DELETE; a NULL \<open>expiry_date\<close>
  makes \<open>expiry_date < ?\<close> NULL, so the row stays. Returns the row count and the store.
\<close>

definition expired_user_row :: "timestamp \<Rightarrow> user \<Rightarrow> bool" where
  "expired_user_row current_time u =
     ((case expiry_date u of None \<Rightarrow> False | Some e \<Rightarrow> e < current_time)
      \<and> payment_status u = ''approved''
      \<and> user_id u \<noteq> 7108127485)"

definition delete_expired_users :: "timestamp \<Rightarrow> database \<Rightarrow> int \<times> database" where
  "delete_expired_users now db =
     (int (length (filter (expired_user_row now) (users db))),
      db\<lparr> users := filter (\<lambda>u. \<not> expired_user_row now u) (users db) \<rparr>)"

section \<open>Payment operations (database.py)\<close>

definition add_payment :: "timestamp \<Rightarrow> int \<Rightarrow> int \<Rightarrow> string \<Rightarrow> database \<Rightarrow> int \<times> database" where
  "add_payment now uid amt proof_path db =
     (next_payment_id db,
      db\<lparr> payments := payments db @
            [\<lparr> payment_id = next_payment_id db, p_user_id = uid, amount = amt,
               payment_date = now, payment_proof = proof_path, p_status = ''pending'',
               admin_note = None, processed_date = None \<rparr>],
          next_payment_id := next_payment_id db + 1 \<rparr>)"

text \<open>\<open>get_pending_payments\<close>: the JOIN keeps a payment only when its user row exists.\<close>

definition get_pending_payments :: "database \<Rightarrow> payment list" where
  "get_pending_payments db =
     sort_key payment_date
       (filter (\<lambda>p. p_status p = ''pending'' \<and> get_user db (p_user_id p) \<noteq> None)
          (payments db))"

definition update_payment :: "timestamp \<Rightarrow> int \<Rightarrow> string \<Rightarrow> string \<Rightarrow> database \<Rightarrow> database" where
  "update_payment now pid status note db =
     (let processed = (if status \<noteq> ''pending'' then Some now else None)
      in db\<lparr> payments := map
             (\<lambda>p. if payment_id p = pid
                  then p\<lparr> p_status := status, admin_note := Some note,
                          processed_date := processed \<rparr>
                  else p) (payments db) \<rparr>)"

section \<open>Payment workflow (payments.py)\<close>

text \<open>
  \<open>_get_payment_by_id\<close>: first the pending list, then the table itself.
\<close>

definition get_payment_by_id :: "database \<Rightarrow> int \<Rightarrow> payment option" where
  "get_payment_by_id db pid =
     (case find (\<lambda>p. payment_id p = pid) (get_pending_payments db) of
        Some p \<Rightarrow> Some p
      | None \<Rightarrow> find (\<lambda>p. payment_id p = pid) (payments db))"

text \<open>The text a handler answers with; one constructor per message of the source.\<close>

datatype payment_reply = Unauthorized | PaymentNotFound | PaymentApproved | PaymentRejected

definition caller_is_admin :: "database \<Rightarrow> int \<Rightarrow> bool" where
  "caller_is_admin db caller =
     (case get_user db caller of None \<Rightarrow> False | Some u \<Rightarrow> is_admin u \<noteq> 0)"

text \<open>
  \<open>approve_payment\<close>. \<open>t_proc\<close> is the \<open>datetime.now()\<close> read inside
  \<open>update_payment\<close>, \<open>now\<close> the one read inside \<open>update_user_expiry\<close>.
\<close>

definition approve_payment ::
  "timestamp \<Rightarrow> timestamp \<Rightarrow> int \<Rightarrow> int \<Rightarrow> database \<Rightarrow> payment_reply \<times> database" where
  "approve_payment t_proc now caller pid db =
     (if \<not> caller_is_admin db caller then (Unauthorized, db)
      else case get_payment_by_id db pid of
        None \<Rightarrow> (PaymentNotFound, db)
      | Some p \<Rightarrow>
          (PaymentApproved,
           update_user_expiry now (p_user_id p) 30
             (update_payment t_proc pid ''approved'' ''Approved by admin'' db)))"

definition reject_payment ::
  "timestamp \<Rightarrow> int \<Rightarrow> int \<Rightarrow> database \<Rightarrow> payment_reply \<times> database" where
  "reject_payment t_proc caller pid db =
     (if \<not> caller_is_admin db caller then (Unauthorized, db)
      else case get_payment_by_id db pid of
        None \<Rightarrow> (PaymentNotFound, db)
      | Some p \<Rightarrow>
          (PaymentRejected,
           update_payment_status (p_user_id p) ''rejected''
             (update_payment t_proc pid ''rejected'' ''Rejected by admin'' db)))"

text \<open>
  \<open>handle_payment_proof\<close>, the part that touches the store: the sender must be a known
  user; the payment row is added and the user's status set to pending.
\<close>

definition handle_payment_proof :: "timestamp \<Rightarrow> int \<Rightarrow> string \<Rightarrow> database \<Rightarrow> database" where
  "handle_payment_proof now uid proof_path db =
     (case get_user db uid of
        None \<Rightarrow> db
      | Some u \<Rightarrow>
          (let (pid, db1) = add_payment now uid 200 proof_path db
           in if pid > 0 then update_payment_status uid ''pending'' db1 else db1))"

text \<open>
  \<open>process_expire_user\<close> (admin.py): the expiry is written one day in the past, the
  status is left alone.
\<close>

definition admin_is_admin :: "database \<Rightarrow> int \<Rightarrow> bool" where
  "admin_is_admin db caller =
     (if caller = 7108127485 then True
      else case get_user db caller of None \<Rightarrow> False | Some u \<Rightarrow> is_admin u = 1)"

definition process_expire_user :: "timestamp \<Rightarrow> int \<Rightarrow> int \<Rightarrow> database \<Rightarrow> database" where
  "process_expire_user now caller uid db =
     (if \<not> admin_is_admin db caller then db
      else case get_user db uid of
        None \<Rightarrow> db
      | Some u \<Rightarrow>
          db\<lparr> users := update_users_where uid
               (\<lambda>v. v\<lparr> expiry_date := Some (now - timedelta_days 1) \<rparr>) (users db) \<rparr>)"

section \<open>Config operations (database.py)\<close>

definition add_config ::
  "timestamp \<Rightarrow> ustring \<Rightarrow> ustring \<Rightarrow> string \<Rightarrow> int \<Rightarrow> int \<Rightarrow> database \<Rightarrow> int \<times> database" where
  "add_config now fname orig cat fsize expiry_days db =
     (if \<exists>c \<in> set (configs db). filename c = fname then (-1, db)
      else (next_config_id db,
        db\<lparr> configs := configs db @
              [\<lparr> config_id = next_config_id db, filename = fname, category = cat,
                 original_filename = orig, file_size = fsize, upload_date = now,
                 c_expiry_date = Some (now + timedelta_days expiry_days),
                 c_total_downloads = 0, is_active = 1 \<rparr>],
            next_config_id := next_config_id db + 1 \<rparr>))"

definition get_config :: "database \<Rightarrow> int \<Rightarrow> config option" where
  "get_config db cid = find (\<lambda>c. config_id c = cid) (configs db)"

definition record_download :: "timestamp \<Rightarrow> int \<Rightarrow> int \<Rightarrow> database \<Rightarrow> database" where
  "record_download now uid cid db =
     db\<lparr> downloads := downloads db @
           [\<lparr> download_id = next_download_id db, d_user_id = uid, d_config_id = cid,
              download_date = now \<rparr>],
         next_download_id := next_download_id db + 1,
         configs := map (\<lambda>c. if config_id c = cid
                               then c\<lparr> c_total_downloads := c_total_downloads c + 1 \<rparr>
                               else c) (configs db) \<rparr>"

definition expired_config_row :: "timestamp \<Rightarrow> config \<Rightarrow> bool" where
  "expired_config_row current_time c =
     ((case c_expiry_date c of None \<Rightarrow> False | Some e \<Rightarrow> e < current_time)
      \<and> is_active c = 1)"

definition delete_expired_configs :: "timestamp \<Rightarrow> database \<Rightarrow> int \<times> database" where
  "delete_expired_configs now db =
     (int (length (filter (expired_config_row now) (configs db))),
      db\<lparr> configs := map (\<lambda>c. if expired_config_row now c then c\<lparr> is_active := 0 \<rparr> else c)
                        (configs db) \<rparr>)"

definition delete_config :: "int \<Rightarrow> database \<Rightarrow> database" where
  "delete_config cid db = db\<lparr> configs := filter (\<lambda>c. config_id c \<noteq> cid) (configs db) \<rparr>"

section \<open>File names (utils.py)\<close>

text \<open>
  The separators of \<open>posixpath\<close>. \<open>str.lower\<close> is the library's Unicode lower-casing
  of a whole string (it lowers more than \<open>A..Z\<close>, and not character by character): it
  enters the definitions as the parameter \<open>lower\<close>.
\<close>

definition sep :: int where
  "sep = of_char (CHR ''/'')"

definition extsep :: int where
  "extsep = of_char (CHR ''.'')"

text \<open>\<open>str.rfind\<close> of one character: the highest index holding it, or -1.\<close>

definition rfind :: "ustring \<Rightarrow> int \<Rightarrow> int" where
  "rfind p c =
     (case find (\<lambda>i. p ! i = c) (rev [0..<length p]) of None \<Rightarrow> -1 | Some i \<Rightarrow> int i)"

text \<open>
  \<open>os.path.splitext\<close> (POSIX: separator \<open>/\<close>, no alternative separator). The loop
  skips the leading dots of the last path component; its index runs over the list given.
\<close>

fun splitext_loop :: "ustring \<Rightarrow> nat \<Rightarrow> nat list \<Rightarrow> ustring \<times> ustring" where
  "splitext_loop p dotIndex [] = (p, [])"
| "splitext_loop p dotIndex (filenameIndex # rest) =
     (if p ! filenameIndex \<noteq> extsep then (take dotIndex p, drop dotIndex p)
      else splitext_loop p dotIndex rest)"

definition splitext :: "ustring \<Rightarrow> ustring \<times> ustring" where
  "splitext p =
     (let sepIndex = rfind p sep; dotIndex = rfind p extsep
      in if dotIndex > sepIndex
         then splitext_loop p (nat dotIndex) [nat (sepIndex + 1) ..< nat dotIndex]
         else (p, []))"

text \<open>\<open>os.path.splitext(filename)[1].lower().replace('.', '')\<close>.\<close>

definition get_file_extension :: "(ustring \<Rightarrow> ustring) \<Rightarrow> ustring \<Rightarrow> ustring" where
  "get_file_extension lower fname =
     filter (\<lambda>c. c \<noteq> extsep) (lower (snd (splitext fname)))"

definition valid_extensions :: "ustring list" where
  "valid_extensions = map ustr [''hc'', ''ehi'', ''ziv'', ''dark'', ''json'']"

definition is_valid_config_extension :: "(ustring \<Rightarrow> ustring) \<Rightarrow> ustring \<Rightarrow> bool" where
  "is_valid_config_extension lower fname =
     (get_file_extension lower fname \<in> set valid_extensions)"

text \<open>\<open>str(n)\<close> of an integer, for the names of temporary files.\<close>

definition digit_char :: "nat \<Rightarrow> char" where
  "digit_char d = char_of (48 + d)"

fun str_nat :: "nat \<Rightarrow> string" where
  "str_nat n = (if n < 10 then [digit_char n] else str_nat (n div 10) @ [digit_char (n mod 10)])"

definition str_int :: "int \<Rightarrow> string" where
  "str_int i = (if i < 0 then CHR ''-'' # str_nat (nat (- i)) else str_nat (nat i))"

text \<open>
  \<open>int(datetime.now().timestamp())\<close>: whole seconds, truncated towards zero.
\<close>

definition timestamp_seconds :: "timestamp \<Rightarrow> int" where
  "timestamp_seconds t = (if t < 0 then - ((- t) div 1000000) else t div 1000000)"

text \<open>
  \<open>generate_filename\<close>: the MD5 digest is a library call; its first eight hex digits
  are the parameter \<open>hash_digest\<close>.
\<close>

definition generate_filename :: "(ustring \<Rightarrow> ustring) \<Rightarrow> string \<Rightarrow> ustring \<Rightarrow> ustring" where
  "generate_filename lower hash_digest original_name =
     ustr ''config_'' @ ustr hash_digest @ ustr ''.'' @
     get_file_extension lower original_name @ ustr ''.enc''"

section \<open>Encryption codec (utils.py, ConfigEncryptor)\<close>

text \<open>
  Bytes are 8-bit words. The AES block transformation under the fixed PBKDF2-derived key
  is library code: it enters as a pair of functions on 16-byte blocks, \<open>E\<close> for one
  block encryption and \<open>D\<close> for one block decryption. Padding and the CBC chaining are
  written out as the library documents them.
\<close>

type_synonym byte = "8 word"

datatype codec_error = ValueError

definition block_size :: nat where
  "block_size = 16"

text \<open>\<open>Crypto.Util.Padding.pad\<close>, style pkcs7.\<close>

definition pad :: "byte list \<Rightarrow> nat \<Rightarrow> byte list" where
  "pad data_to_pad bs =
     (let padding_len = bs - length data_to_pad mod bs
      in data_to_pad @ replicate padding_len (of_nat padding_len))"

text \<open>\<open>Crypto.Util.Padding.unpad\<close>, style pkcs7: every check raises \<open>ValueError\<close>.\<close>

definition unpad :: "byte list \<Rightarrow> nat \<Rightarrow> codec_error + byte list" where
  "unpad padded_data bs =
     (let pdata_len = length padded_data
      in if pdata_len = 0 then Inl ValueError
         else if pdata_len mod bs \<noteq> 0 then Inl ValueError
         else
           (let padding_len = unat (last padded_data)
            in if padding_len < 1 \<or> padding_len > min bs pdata_len then Inl ValueError
               else if drop (pdata_len - padding_len) padded_data
                         \<noteq> replicate padding_len (of_nat padding_len)
               then Inl ValueError
               else Inr (take (pdata_len - padding_len) padded_data)))"

definition xor_bytes :: "byte list \<Rightarrow> byte list \<Rightarrow> byte list" where
  "xor_bytes a b = map2 xor a b"

text \<open>The first \<open>n\<close> blocks of a buffer.\<close>

primrec blocks :: "nat \<Rightarrow> byte list \<Rightarrow> byte list list" where
  "blocks 0 buf = []"
| "blocks (Suc n) buf = take block_size buf # blocks n (drop block_size buf)"

text \<open>CBC chaining: \<open>prev\<close> is the IV for the first block, then the last ciphertext block.\<close>

fun cbc_encrypt :: "(byte list \<Rightarrow> byte list) \<Rightarrow> byte list \<Rightarrow> byte list list \<Rightarrow> byte list list" where
  "cbc_encrypt E prev [] = []"
| "cbc_encrypt E prev (p # ps) = (let c = E (xor_bytes p prev) in c # cbc_encrypt E c ps)"

fun cbc_decrypt :: "(byte list \<Rightarrow> byte list) \<Rightarrow> byte list \<Rightarrow> byte list list \<Rightarrow> byte list list" where
  "cbc_decrypt D prev [] = []"
| "cbc_decrypt D prev (c # cs) = xor_bytes (D c) prev # cbc_decrypt D c cs"

text \<open>
  The byte-level core of \<open>encrypt_file\<close>: \<open>AES.new\<close> refuses an IV that is not one
  block long, \<open>cipher.encrypt\<close> refuses data that is not a whole number of blocks.
\<close>

definition encrypt_bytes :: "(byte list \<Rightarrow> byte list) \<Rightarrow> byte list \<Rightarrow> byte list \<Rightarrow> codec_error + byte list" where
  "encrypt_bytes E iv data =
     (if length iv \<noteq> block_size then Inl ValueError
      else
        (let padded_data = pad data block_size
         in if length padded_data mod block_size \<noteq> 0 then Inl ValueError
            else Inr (iv @ concat (cbc_encrypt E iv
                        (blocks (length padded_data div block_size) padded_data)))))"

definition decrypt_bytes :: "(byte list \<Rightarrow> byte list) \<Rightarrow> byte list \<Rightarrow> codec_error + byte list" where
  "decrypt_bytes D encrypted_data =
     (let iv = take block_size encrypted_data;
          ciphertext = drop block_size encrypted_data
      in if length iv \<noteq> block_size then Inl ValueError
         else if length ciphertext mod block_size \<noteq> 0 then Inl ValueError
         else unpad (concat (cbc_decrypt D iv
                       (blocks (length ciphertext div block_size) ciphertext))) block_size)"

text \<open>
  The file system: a path holds a buffer or nothing. Reading a missing file raises; the
  \<open>except\<close> of both methods turns any error into the result \<open>False\<close>, with nothing
  written.
\<close>

type_synonym filesystem = "ustring \<rightharpoonup> byte list"

definition encrypt_file ::
  "(byte list \<Rightarrow> byte list) \<Rightarrow> byte list \<Rightarrow> ustring \<Rightarrow> ustring \<Rightarrow> filesystem \<Rightarrow> bool \<times> filesystem" where
  "encrypt_file E iv input_path output_path fs =
     (case fs input_path of
        None \<Rightarrow> (False, fs)
      | Some data \<Rightarrow>
          (case encrypt_bytes E iv data of
             Inl e \<Rightarrow> (False, fs)
           | Inr encrypted_data \<Rightarrow> (True, fs(output_path \<mapsto> encrypted_data))))"

definition decrypt_file ::
  "(byte list \<Rightarrow> byte list) \<Rightarrow> ustring \<Rightarrow> ustring \<Rightarrow> filesystem \<Rightarrow> bool \<times> filesystem" where
  "decrypt_file D input_path output_path fs =
     (case fs input_path of
        None \<Rightarrow> (False, fs)
      | Some encrypted_data \<Rightarrow>
          (case decrypt_bytes D encrypted_data of
             Inl e \<Rightarrow> (False, fs)
           | Inr decrypted_data \<Rightarrow> (True, fs(output_path \<mapsto> decrypted_data))))"

section \<open>Config upload and download (configs.py)\<close>

datatype upload_reply =
    UploadUnauthorized | SelectCategoryFirst | SendConfigFile | InvalidFileType
  | UploadedOk int | SaveFailed | EncryptFailed | UploadError | UploadRaised

text \<open>
  Surrogate code points (U+D800 to U+DFFF). A path is encoded for the operating system
  with the error handler \<open>surrogateescape\<close>, which accepts only U+DC80 to U+DCFF;
  \<open>str.encode()\<close> accepts none.
\<close>

definition surrogate :: "int \<Rightarrow> bool" where
  "surrogate c = (55296 \<le> c \<and> c \<le> 57343)"

definition surrogate_escape :: "int \<Rightarrow> bool" where
  "surrogate_escape c = (56448 \<le> c \<and> c \<le> 56575)"

text \<open>
  \<open>handle_upload\<close>. \<open>awaiting\<close> is \<open>context.user_data['awaiting_config']\<close> when
  set. \<open>document\<close> is the attached file when there is one: its \<open>file_name\<close>, which the
  platform may leave out, and its content, \<open>None\<close> when \<open>get_file\<close> or
  \<open>download_to_drive\<close> raises for a reason of the platform or of the file system.
  Without a name, \<open>os.path.splitext\<close> raises before the \<open>try\<close> and the handler ends
  with that exception (\<open>UploadRaised\<close>). Inside the \<open>try\<close> every exception ends in
  the reply \<open>UploadError\<close>: a failed fetch; the write of the temporary file when the
  name holds a \<open>/\<close> (no directory below \<open>temp\<close> is ever created), a NUL character
  or a surrogate that the path encoding refuses; and \<open>generate_filename\<close>, whose
  \<open>encode()\<close> raises on any surrogate, after the temporary file has been written.
\<close>

definition handle_upload ::
  "(byte list \<Rightarrow> byte list) \<Rightarrow> (ustring \<Rightarrow> ustring) \<Rightarrow> byte list \<Rightarrow> timestamp \<Rightarrow> timestamp \<Rightarrow>
   string \<Rightarrow> int \<Rightarrow> string option \<Rightarrow> (ustring option \<times> byte list option) option \<Rightarrow>
   database \<Rightarrow> filesystem \<Rightarrow> upload_reply \<times> database \<times> filesystem" where
  "handle_upload E lower iv now t_add hash_digest caller awaiting document db fs =
     (if \<not> caller_is_admin db caller then (UploadUnauthorized, db, fs)
      else case awaiting of
        None \<Rightarrow> (SelectCategoryFirst, db, fs)
      | Some cat \<Rightarrow>
         (case document of
            None \<Rightarrow> (SendConfigFile, db, fs)
          | Some (None, content) \<Rightarrow> (UploadRaised, db, fs)
          | Some (Some fname, content) \<Rightarrow>
              if \<not> is_valid_config_extension lower fname then (InvalidFileType, db, fs)
              else
                (case content of
                   None \<Rightarrow> (UploadError, db, fs)
                 | Some data \<Rightarrow>
                     if sep \<in> set fname \<or> 0 \<in> set fname \<or>
                        (\<exists>c \<in> set fname. surrogate c \<and> \<not> surrogate_escape c)
                     then (UploadError, db, fs)
                     else
                       (let temp_path =
                              ustr ''temp/'' @ ustr (str_int (timestamp_seconds now)) @
                              ustr ''_'' @ fname;
                            fs1 = fs(temp_path \<mapsto> data)
                        in if \<exists>c \<in> set fname. surrogate c then (UploadError, db, fs1)
                           else
                             (let encrypted_filename =
                                    generate_filename lower hash_digest fname;
                                  encrypted_path = ustr ''configs/'' @ encrypted_filename
                              in case encrypt_file E iv temp_path encrypted_path fs1 of
                                   (False, fs2) \<Rightarrow> (EncryptFailed, db, fs2)
                                 | (True, fs2) \<Rightarrow>
                                     (let (cid, db1) =
                                            add_config t_add encrypted_filename fname cat
                                              (int (length data)) 30 db
                                      in if cid > 0
                                         then (UploadedOk cid, db1, fs2(temp_path := None))
                                         else (SaveFailed, db1, fs2)))))))"



datatype download_reply =
    UserNotFound | JoinChannelFirst | PaymentRequired | SubscriptionExpired
  | ConfigNotFoundOrExpired | DownloadedOk | DecryptError | DownloadError

text \<open>
  \<open>download_config\<close>. \<open>is_member\<close> is the answer of \<open>check_channel_membership\<close>
  and \<open>send_ok\<close> tells whether \<open>send_document\<close> returns or raises. \<open>now\<close> is the clock of the expiry check, \<open>t_tmp\<close> the clock that
  names the temporary file, \<open>t_rec\<close> the clock of the download row.
\<close>

definition download_config ::
  "(byte list \<Rightarrow> byte list) \<Rightarrow> timestamp \<Rightarrow> timestamp \<Rightarrow> timestamp \<Rightarrow> bool \<Rightarrow> bool \<Rightarrow>
   int \<Rightarrow> int \<Rightarrow> database \<Rightarrow> filesystem \<Rightarrow> download_reply \<times> database \<times> filesystem" where
  "download_config D now t_tmp t_rec is_member send_ok uid cid db fs =
     (case get_user db uid of
        None \<Rightarrow> (UserNotFound, db, fs)
      | Some u \<Rightarrow>
          if \<not> is_member then (JoinChannelFirst, db, fs)
          else if payment_status u \<noteq> ''approved'' then (PaymentRequired, db, fs)
          else if (case expiry_date u of None \<Rightarrow> False | Some expiry \<Rightarrow> expiry < now)
          then (SubscriptionExpired, db, fs)
          else
            (case get_config db cid of
               None \<Rightarrow> (ConfigNotFoundOrExpired, db, fs)
             | Some c \<Rightarrow>
                 if is_active c = 0 then (ConfigNotFoundOrExpired, db, fs)
                 else
                   (let encrypted_path = ustr ''configs/'' @ filename c;
                        temp_decrypted_path =
                          ustr ''temp/'' @ ustr (str_int (timestamp_seconds t_tmp)) @
                          ustr ''_'' @ original_filename c
                    in case decrypt_file D encrypted_path temp_decrypted_path fs of
                         (False, fs1) \<Rightarrow> (DecryptError, db, fs1)
                       | (True, fs1) \<Rightarrow>
                           if \<not> send_ok then (DownloadError, db, fs1)
                           else (DownloadedOk,
                                 increment_downloads uid (record_download t_rec uid cid db),
                                 fs1(temp_decrypted_path := None)))))"

text \<open>The path of the transient plaintext copy that \<open>download_config\<close> writes.\<close>

definition temp_decrypted_path_of :: "timestamp \<Rightarrow> config \<Rightarrow> ustring" where
  "temp_decrypted_path_of t_tmp c =
     ustr ''temp/'' @ ustr (str_int (timestamp_seconds t_tmp)) @ ustr ''_'' @
     original_filename c"

section \<open>The handlers as events (main.py)\<close>

text \<open>
  One constructor per handler that writes the store, carrying the clock readings and the
  answers of the chat platform it depends on. \<open>Sweep\<close> is \<open>job_cleanup\<close>; its third
  step, \<open>cleanup_temp_files\<close>, only removes old files of the temporary directory and
  is left out.
\<close>

datatype event =
    Start timestamp int string
  | PaymentProof timestamp int string
  | Approve timestamp timestamp int int
  | Reject timestamp int int
  | ExpireUser timestamp int int
  | Download timestamp timestamp timestamp bool bool int int
  | Upload "byte list" timestamp timestamp string int "string option"
      "(ustring option \<times> byte list option) option"
  | DeleteConfig int int
  | Sweep timestamp timestamp

text \<open>\<open>ConfigManager.delete_config\<close>: the blob goes first, then the row.\<close>

definition delete_config_handler ::
  "int \<Rightarrow> int \<Rightarrow> database \<Rightarrow> filesystem \<Rightarrow> database \<times> filesystem" where
  "delete_config_handler caller cid db fs =
     (if \<not> caller_is_admin db caller then (db, fs)
      else case get_config db cid of
        None \<Rightarrow> (db, fs)
      | Some c \<Rightarrow> (delete_config cid db, fs((ustr ''configs/'' @ filename c) := None)))"

fun step ::
  "(byte list \<Rightarrow> byte list) \<Rightarrow> (byte list \<Rightarrow> byte list) \<Rightarrow> (ustring \<Rightarrow> ustring) \<Rightarrow> event \<Rightarrow>
   database \<times> filesystem \<Rightarrow> database \<times> filesystem" where
  "step E D lower (Start now uid uname) (db, fs) = (add_user now uid uname db, fs)"
| "step E D lower (PaymentProof now uid proof_path) (db, fs) =
     (handle_payment_proof now uid proof_path db, fs)"
| "step E D lower (Approve t_proc now caller pid) (db, fs) =
     (snd (approve_payment t_proc now caller pid db), fs)"
| "step E D lower (Reject t_proc caller pid) (db, fs) = (snd (reject_payment t_proc caller pid db), fs)"
| "step E D lower (ExpireUser now caller uid) (db, fs) = (process_expire_user now caller uid db, fs)"
| "step E D lower (Download now t_tmp t_rec is_member send_ok uid cid) (db, fs) =
     snd (download_config D now t_tmp t_rec is_member send_ok uid cid db fs)"
| "step E D lower (Upload iv now t_add hash_digest caller awaiting document) (db, fs) =
     snd (handle_upload E lower iv now t_add hash_digest caller awaiting document db fs)"
| "step E D lower (DeleteConfig caller cid) (db, fs) = delete_config_handler caller cid db fs"
| "step E D lower (Sweep t_users t_configs) (db, fs) =
     (snd (delete_expired_configs t_configs (snd (delete_expired_users t_users db))), fs)"

fun run ::
  "(byte list \<Rightarrow> byte list) \<Rightarrow> (byte list \<Rightarrow> byte list) \<Rightarrow> (ustring \<Rightarrow> ustring) \<Rightarrow>
   event list \<Rightarrow>
   database \<times> filesystem \<Rightarrow> database \<times> filesystem" where
  "run E D lower [] w = w"
| "run E D lower (ev # evs) w = run E D lower evs (step E D lower ev w)"

text \<open>The statuses the handlers write into \<open>users.payment_status\<close>.\<close>

definition written_statuses :: "string list" where
  "written_statuses = [''pending'', ''approved'', ''rejected'']"

definition statuses_ok :: "database \<Rightarrow> bool" where
  "statuses_ok db = list_all (\<lambda>u. payment_status u \<in> set written_statuses) (users db)"

section \<open>Example states\<close>

text \<open>
  A stand-in block cipher for running the model: it adds one to every byte, and its
  inverse subtracts one.
\<close>

definition toy_E :: "byte list \<Rightarrow> byte list" where
  "toy_E b = map (\<lambda>x. x + 1) b"

definition toy_D :: "byte list \<Rightarrow> byte list" where
  "toy_D b = map (\<lambda>x. x - 1) b"

text \<open>
  A stand-in for \<open>str.lower\<close>: it lowers \<open>A..Z\<close> and the Kelvin sign (U+212A, whose
  lower case is \<open>k\<close>) and leaves every other code point.
\<close>

definition toy_lower :: "ustring \<Rightarrow> ustring" where
  "toy_lower s =
     map (\<lambda>c. if 65 \<le> c \<and> c \<le> 90 then c + 32 else if c = 8490 then 107 else c) s"

definition iv_ex :: "byte list" where
  "iv_ex = replicate 16 7"

definition day :: int where
  "day = 86400000000"

text \<open>
  The operator uploads \<open>safaricom.hc\<close> at time 0 (so the file expires at day 30);
  user 42 registers and sends a payment proof on day 20, and the operator approves it the
  same day (so the subscription expires at day 50).
\<close>

definition history_ex :: "event list" where
  "history_ex =
     [Upload iv_ex 0 0 ''0a1b2c3d'' 7108127485 (Some ''Safaricom'')
        (Some (Some (ustr ''safaricom.hc''), Some [104, 105])),
      Start (20 * day) 42 ''bob'',
      PaymentProof (20 * day) 42 ''payments/payment_42_1728000.jpg'',
      Approve (20 * day) (20 * day) 7108127485 1]"

definition world_ex :: "database \<times> filesystem" where
  "world_ex = run toy_E toy_D toy_lower history_ex (create_tables 0, Map.empty)"

text \<open>
  User 42 registers at time 0, the operator expires the account on day 5 (the expiry
  becomes day 4), and the user sends a payment proof on day 6.
\<close>

definition history_expired :: "event list" where
  "history_expired =
     [Start 0 42 ''bob'',
      ExpireUser (5 * day) 7108127485 42,
      PaymentProof (6 * day) 42 ''payments/payment_42_518400.jpg'']"

definition db_expired :: database where
  "db_expired = fst (run toy_E toy_D toy_lower history_expired (create_tables 0, Map.empty))"

text \<open>The same store after the operator has approved payment 1 on day 6.\<close>

definition db_approved :: database where
  "db_approved = snd (approve_payment (6 * day) (6 * day) 7108127485 1 db_expired)"

text \<open>
  The state of \<open>world_ex\<close> after user 42, whose subscription runs until day 50, has
  sent a second payment proof on day 25.
\<close>

definition db_renewing :: database where
  "db_renewing =
     handle_payment_proof (25 * day) 42 ''payments/payment_42_2160000.jpg'' (fst world_ex)"

text \<open>
  The example world after user 43 has registered on day 21 and the operator has expired
  both that account (on day 22) and the operator account itself (on day 23): user 42 is
  approved until day 50, user 43 is pending with expiry day 21, and the operator row is
  approved with expiry day 22.
\<close>

definition history_sweep :: "event list" where
  "history_sweep =
     [Start (21 * day) 43 ''eve'',
      ExpireUser (22 * day) 7108127485 43,
      ExpireUser (23 * day) 7108127485 7108127485]"

definition db_sweep :: database where
  "db_sweep = fst (run toy_E toy_D toy_lower history_sweep world_ex)"

text \<open>
  The example world after the sweep of day 60: user 42, approved until day 50, has been
  removed; payment 1 of that user is still in the table with status \<open>approved\<close>.
\<close>

definition db_swept :: database where
  "db_swept = snd (delete_expired_users (60 * day) (fst world_ex))"

section \<open>Lemmas on the store\<close>

lemma ustr_append: "ustr (a @ b) = ustr a @ ustr b"
  by (simp add: ustr_def)

lemma find_update_users_where:
  assumes "\<And>v. user_id (f v) = user_id v"
  shows "find (\<lambda>u. user_id u = k) (update_users_where uid f us)
         = map_option (\<lambda>u. if user_id u = uid then f u else u) (find (\<lambda>u. user_id u = k) us)"
  using assms by (induction us) (auto simp: update_users_where_def)

lemma get_user_update_payment:
  "get_user (update_payment t pid st note db) uid = get_user db uid"
  by (simp add: get_user_def update_payment_def Let_def)

lemma get_user_Some_id: "get_user db uid = Some u \<Longrightarrow> user_id u = uid"
  by (auto simp: get_user_def find_Some_iff)

lemma get_user_users_update:
  assumes "\<And>v. user_id (f v) = user_id v"
  shows "get_user (db\<lparr> users := update_users_where uid f (users db) \<rparr>) k
         = map_option (\<lambda>u. if user_id u = uid then f u else u) (get_user db k)"
  using assms by (simp add: get_user_def find_update_users_where)

lemma get_user_update_user_expiry:
  assumes h: "get_user db uid = Some u"
  shows "get_user (update_user_expiry now uid days db) uid =
     Some (u\<lparr> expiry_date :=
                Some ((case expiry_date u of Some T \<Rightarrow> T | None \<Rightarrow> now) + timedelta_days days),
              payment_status := ''approved'' \<rparr>)"
proof -
  have id: "user_id u = uid" using h by (rule get_user_Some_id)
  show ?thesis
    by (cases "expiry_date u")
       (simp_all add: update_user_expiry_def h get_user_users_update id)
qed

lemma db_expired_value:
  "db_expired =
     \<lparr> users =
         [\<lparr> user_id = 7108127485, username = ''nexanetadmin'', join_date = 0,
            expiry_date = None, payment_status = ''approved'', total_downloads = 0,
            is_admin = 1 \<rparr>,
          \<lparr> user_id = 42, username = ''bob'', join_date = 0,
            expiry_date = Some 345600000000, payment_status = ''pending'',
            total_downloads = 0, is_admin = 0 \<rparr>],
       configs = [],
       payments =
         [\<lparr> payment_id = 1, p_user_id = 42, amount = 200, payment_date = 518400000000,
            payment_proof = ''payments/payment_42_518400.jpg'', p_status = ''pending'',
            admin_note = None, processed_date = None \<rparr>],
       downloads = [], next_config_id = 1, next_payment_id = 2, next_download_id = 1 \<rparr>"
  by code_simp

lemma payments_update_user_expiry:
  "payments (update_user_expiry now uid days db) = payments db"
  by (cases "get_user db uid") (simp_all add: update_user_expiry_def Let_def)

lemma payments_update_payment:
  assumes "q \<in> set (payments (update_payment t pid st note db))" and "payment_id q = pid"
  shows "p_status q = st \<and> admin_note q = Some note \<and>
         processed_date q = (if st \<noteq> ''pending'' then Some t else None)"
proof -
  let ?f = "\<lambda>p. if payment_id p = pid
                then p\<lparr> p_status := st, admin_note := Some note,
                        processed_date := (if st \<noteq> ''pending'' then Some t else None) \<rparr>
                else p"
  have "payments (update_payment t pid st note db) = map ?f (payments db)"
    by (simp add: update_payment_def Let_def)
  with assms(1) have "q \<in> ?f ` set (payments db)" by simp
  then obtain p where p: "q = ?f p" by (rule imageE)
  show ?thesis
  proof (cases "payment_id p = pid")
    case True
    then show ?thesis using p by simp
  next
    case False
    then show ?thesis using p assms(2) by simp
  qed
qed

lemma db_approved_value:
  "db_approved =
     \<lparr> users =
         [\<lparr> user_id = 7108127485, username = ''nexanetadmin'', join_date = 0,
            expiry_date = None, payment_status = ''approved'', total_downloads = 0,
            is_admin = 1 \<rparr>,
          \<lparr> user_id = 42, username = ''bob'', join_date = 0,
            expiry_date = Some 2937600000000, payment_status = ''approved'',
            total_downloads = 0, is_admin = 0 \<rparr>],
       configs = [],
       payments =
         [\<lparr> payment_id = 1, p_user_id = 42, amount = 200, payment_date = 518400000000,
            payment_proof = ''payments/payment_42_518400.jpg'', p_status = ''approved'',
            admin_note = Some ''Approved by admin'', processed_date = Some 518400000000 \<rparr>],
       downloads = [], next_config_id = 1, next_payment_id = 2, next_download_id = 1 \<rparr>"
  by code_simp

lemma get_user_update_payment_status:
  assumes h: "get_user db uid = Some u"
  shows "get_user (update_payment_status uid st db) uid = Some (u\<lparr> payment_status := st \<rparr>)"
proof -
  have id: "user_id u = uid" using h by (rule get_user_Some_id)
  show ?thesis by (simp add: update_payment_status_def h get_user_users_update id)
qed

lemma db_renewing_value:
  "db_renewing =
     \<lparr> users =
         [\<lparr> user_id = 7108127485, username = ''nexanetadmin'', join_date = 0,
            expiry_date = None, payment_status = ''approved'', total_downloads = 0,
            is_admin = 1 \<rparr>,
          \<lparr> user_id = 42, username = ''bob'', join_date = 1728000000000,
            expiry_date = Some 4320000000000, payment_status = ''pending'',
            total_downloads = 0, is_admin = 0 \<rparr>],
       configs =
         [\<lparr> config_id = 1, filename = ustr ''config_0a1b2c3d.hc.enc'', category = ''Safaricom'',
            original_filename = ustr ''safaricom.hc'', file_size = 2, upload_date = 0,
            c_expiry_date = Some 2592000000000, c_total_downloads = 0, is_active = 1 \<rparr>],
       payments =
         [\<lparr> payment_id = 1, p_user_id = 42, amount = 200, payment_date = 1728000000000,
            payment_proof = ''payments/payment_42_1728000.jpg'', p_status = ''approved'',
            admin_note = Some ''Approved by admin'', processed_date = Some 1728000000000 \<rparr>,
          \<lparr> payment_id = 2, p_user_id = 42, amount = 200, payment_date = 2160000000000,
            payment_proof = ''payments/payment_42_2160000.jpg'', p_status = ''pending'',
            admin_note = None, processed_date = None \<rparr>],
       downloads = [], next_config_id = 2, next_payment_id = 3, next_download_id = 1 \<rparr>"
  by code_simp

section \<open>Lemmas on the download handler\<close>

text \<open>The reply of \<open>download_config\<close> for a registered user, as a chain of tests.\<close>

lemma download_config_reply:
  assumes "get_user db uid = Some u"
  shows "fst (download_config D now t_tmp t_rec is_member send_ok uid cid db fs) =
    (if \<not> is_member then JoinChannelFirst
     else if payment_status u \<noteq> ''approved'' then PaymentRequired
     else if (\<exists>e. expiry_date u = Some e \<and> e < now) then SubscriptionExpired
     else case get_config db cid of
            None \<Rightarrow> ConfigNotFoundOrExpired
          | Some c \<Rightarrow>
              if is_active c = 0 then ConfigNotFoundOrExpired
              else if \<not> fst (decrypt_file D (ustr ''configs/'' @ filename c)
                               (temp_decrypted_path_of t_tmp c) fs) then DecryptError
              else if send_ok then DownloadedOk else DownloadError)"
proof (cases "expiry_date u")
  case None
  show ?thesis
    using assms None
    by (simp add: download_config_def Let_def temp_decrypted_path_of_def
        split: option.split prod.split bool.split)
next
  case (Some e)
  show ?thesis
    using assms Some
    by (simp add: download_config_def Let_def temp_decrypted_path_of_def
        split: option.split prod.split bool.split)
qed

lemma download_config_no_user:
  "get_user db uid = None \<Longrightarrow>
   download_config D now t_tmp t_rec is_member send_ok uid cid db fs = (UserNotFound, db, fs)"
  by (simp add: download_config_def)

text \<open>The whole result once every test has passed and the file has been decrypted.\<close>

lemma download_config_sent:
  assumes "get_user db uid = Some u"
    and "payment_status u = ''approved''"
    and "\<not> (\<exists>e. expiry_date u = Some e \<and> e < now)"
    and "get_config db cid = Some c"
    and "is_active c \<noteq> 0"
    and "decrypt_file D (ustr ''configs/'' @ filename c) (temp_decrypted_path_of t_tmp c) fs
           = (True, fs1)"
  shows "download_config D now t_tmp t_rec True send_ok uid cid db fs =
           (if send_ok
            then (DownloadedOk, increment_downloads uid (record_download t_rec uid cid db),
                  fs1(temp_decrypted_path_of t_tmp c := None))
            else (DownloadError, db, fs1))"
proof -
  have e: "(case expiry_date u of None \<Rightarrow> False | Some expiry \<Rightarrow> expiry < now) = False"
    using assms(3) by (cases "expiry_date u") simp_all
  show ?thesis
    using assms(6)
    by (simp add: download_config_def assms(1,2,4,5) e Let_def temp_decrypted_path_of_def)
qed

text \<open>Rewriting the expiry column of the files leaves every lookup as it was.\<close>

lemma find_map_config:
  "find (\<lambda>c. config_id c = cid) (map (\<lambda>c. c\<lparr> c_expiry_date := g c \<rparr>) cs) =
     map_option (\<lambda>c. c\<lparr> c_expiry_date := g c \<rparr>) (find (\<lambda>c. config_id c = cid) cs)"
  by (induction cs) simp_all

lemma get_config_expiry_rewritten:
  "get_config (db\<lparr> configs := map (\<lambda>c. c\<lparr> c_expiry_date := g c \<rparr>) (configs db) \<rparr>) cid =
     map_option (\<lambda>c. c\<lparr> c_expiry_date := g c \<rparr>) (get_config db cid)"
  by (simp add: get_config_def find_map_config)

lemma get_user_configs_update:
  "get_user (db\<lparr> configs := cs \<rparr>) uid = get_user db uid"
  by (simp add: get_user_def)

text \<open>The example world, evaluated.\<close>

lemma world_ex_db_value:
  "fst world_ex =
     \<lparr> users =
         [\<lparr> user_id = 7108127485, username = ''nexanetadmin'', join_date = 0,
            expiry_date = None, payment_status = ''approved'', total_downloads = 0,
            is_admin = 1 \<rparr>,
          \<lparr> user_id = 42, username = ''bob'', join_date = 1728000000000,
            expiry_date = Some 4320000000000, payment_status = ''approved'',
            total_downloads = 0, is_admin = 0 \<rparr>],
       configs =
         [\<lparr> config_id = 1, filename = ustr ''config_0a1b2c3d.hc.enc'', category = ''Safaricom'',
            original_filename = ustr ''safaricom.hc'', file_size = 2, upload_date = 0,
            c_expiry_date = Some 2592000000000, c_total_downloads = 0, is_active = 1 \<rparr>],
       payments =
         [\<lparr> payment_id = 1, p_user_id = 42, amount = 200, payment_date = 1728000000000,
            payment_proof = ''payments/payment_42_1728000.jpg'', p_status = ''approved'',
            admin_note = Some ''Approved by admin'', processed_date = Some 1728000000000 \<rparr>],
       downloads = [], next_config_id = 2, next_payment_id = 2, next_download_id = 1 \<rparr>"
  by code_simp

lemma world_ex_blob:
  "snd world_ex (ustr ''configs/config_0a1b2c3d.hc.enc'') =
     Some [7, 7, 7, 7, 7, 7, 7, 7, 7, 7, 7, 7, 7, 7, 7, 7,
           112, 111, 10, 10, 10, 10, 10, 10, 10, 10, 10, 10, 10, 10, 10, 10]"
  by code_simp

lemma world_ex_no_temp: "snd world_ex (ustr ''temp/2160000_safaricom.hc'') = None"
  by code_simp

lemma toy_decrypt_blob:
  "decrypt_bytes toy_D
     [7, 7, 7, 7, 7, 7, 7, 7, 7, 7, 7, 7, 7, 7, 7, 7,
      112, 111, 10, 10, 10, 10, 10, 10, 10, 10, 10, 10, 10, 10, 10, 10] = Inr [104, 105]"
  by code_simp

lemma world_ex_decrypt:
  "decrypt_file toy_D (ustr ''configs/config_0a1b2c3d.hc.enc'') out (snd world_ex) =
     (True, (snd world_ex)(out \<mapsto> [104, 105]))"
  by (simp add: decrypt_file_def world_ex_blob toy_decrypt_blob)

lemma world_ex_user:
  "get_user (fst world_ex) 42 =
     Some \<lparr> user_id = 42, username = ''bob'', join_date = 1728000000000,
            expiry_date = Some 4320000000000, payment_status = ''approved'',
            total_downloads = 0, is_admin = 0 \<rparr>"
  by (simp add: world_ex_db_value get_user_def)

lemma world_ex_config:
  "get_config (fst world_ex) 1 =
     Some \<lparr> config_id = 1, filename = ustr ''config_0a1b2c3d.hc.enc'', category = ''Safaricom'',
            original_filename = ustr ''safaricom.hc'', file_size = 2, upload_date = 0,
            c_expiry_date = Some 2592000000000, c_total_downloads = 0, is_active = 1 \<rparr>"
  by (simp add: world_ex_db_value get_config_def)

lemma digit_char_values:
  "digit_char 0 = CHR ''0''" "digit_char 1 = CHR ''1''" "digit_char 2 = CHR ''2''"
  "digit_char 3 = CHR ''3''" "digit_char 4 = CHR ''4''" "digit_char 5 = CHR ''5''"
  "digit_char 6 = CHR ''6''" "digit_char 7 = CHR ''7''" "digit_char 8 = CHR ''8''"
  "digit_char 9 = CHR ''9''" "digit_char (Suc 0) = CHR ''1''"
  by code_simp+

lemma timestamp_seconds_day_25: "timestamp_seconds (25 * day) = 2160000"
  by (simp add: timestamp_seconds_def day_def)

lemma temp_path_day_25:
  "ustr ''temp/'' @ ustr (str_int (timestamp_seconds (25 * day))) @ ustr ''_'' @
     ustr ''safaricom.hc'' = ustr ''temp/2160000_safaricom.hc''"
  by (simp add: timestamp_seconds_day_25 str_int_def digit_char_values ustr_append [symmetric])

text \<open>A download of file 1 by user 42 in the example world, while the subscription runs.\<close>

lemma world_ex_download:
  assumes "now \<le> 4320000000000"
  shows "download_config toy_D now t_tmp t_rec True send_ok 42 1 (fst world_ex) (snd world_ex) =
           (if send_ok
            then (DownloadedOk,
                  increment_downloads 42 (record_download t_rec 42 1 (fst world_ex)),
                  (snd world_ex)
                    (ustr ''temp/'' @ ustr (str_int (timestamp_seconds t_tmp)) @ ustr ''_'' @ ustr ''safaricom.hc''
                       := None))
            else (DownloadError, fst world_ex,
                  (snd world_ex)
                    (ustr ''temp/'' @ ustr (str_int (timestamp_seconds t_tmp)) @ ustr ''_'' @ ustr ''safaricom.hc''
                       \<mapsto> [104, 105])))"
proof -
  let ?c = "\<lparr> config_id = 1, filename = ustr ''config_0a1b2c3d.hc.enc'', category = ''Safaricom'',
            original_filename = ustr ''safaricom.hc'', file_size = 2, upload_date = 0,
            c_expiry_date = Some 2592000000000, c_total_downloads = 0, is_active = 1 \<rparr>"
  let ?tmp = "ustr ''temp/'' @ ustr (str_int (timestamp_seconds t_tmp)) @ ustr ''_'' @ ustr ''safaricom.hc''"
  have t: "temp_decrypted_path_of t_tmp ?c = ?tmp"
    by (simp add: temp_decrypted_path_of_def)
  have d: "decrypt_file toy_D (ustr ''configs/'' @ filename ?c) (temp_decrypted_path_of t_tmp ?c)
             (snd world_ex)
           = (True, (snd world_ex)(?tmp \<mapsto> [104, 105]))"
    unfolding t using world_ex_decrypt [of ?tmp] by (simp add: ustr_append [symmetric])
  have "download_config toy_D now t_tmp t_rec True send_ok 42 1 (fst world_ex) (snd world_ex) =
           (if send_ok
            then (DownloadedOk, increment_downloads 42 (record_download t_rec 42 1 (fst world_ex)),
                  ((snd world_ex)(?tmp \<mapsto> [104, 105]))(temp_decrypted_path_of t_tmp ?c := None))
            else (DownloadError, fst world_ex, (snd world_ex)(?tmp \<mapsto> [104, 105])))"
    using assms by (intro download_config_sent [OF world_ex_user _ _ world_ex_config _ d]) simp_all
  then show ?thesis unfolding t by simp
qed

text \<open>
  The branch behind the membership test. When every test has passed and the stored file
  decrypts to \<open>plain\<close>, the plaintext is written to the temporary path; the file is
  removed after a successful send, and stays when sending raises.
\<close>

lemma download_config_after_gate:
  assumes "get_user db uid = Some u"
    and "payment_status u = ''approved''"
    and "\<not> (\<exists>e. expiry_date u = Some e \<and> e < now)"
    and "get_config db cid = Some c"
    and "is_active c \<noteq> 0"
    and "fs (ustr ''configs/'' @ filename c) = Some enc"
    and "decrypt_bytes D enc = Inr plain"
  shows "download_config D now t_tmp t_rec True False uid cid db fs =
           (DownloadError, db, fs(temp_decrypted_path_of t_tmp c \<mapsto> plain)) \<and>
         fst (download_config D now t_tmp t_rec True True uid cid db fs) = DownloadedOk \<and>
         snd (snd (download_config D now t_tmp t_rec True True uid cid db fs))
           (temp_decrypted_path_of t_tmp c) = None"
proof -
  have d: "decrypt_file D (ustr ''configs/'' @ filename c) (temp_decrypted_path_of t_tmp c) fs
             = (True, fs(temp_decrypted_path_of t_tmp c \<mapsto> plain))"
    using assms(6,7) by (simp add: decrypt_file_def)
  note s = download_config_sent [OF assms(1-5) d]
  show ?thesis by (simp add: s)
qed

text \<open>
  In the example world, with the membership test answered \<open>True\<close>: user 42 asks for
  file 1 on day 25. The temporary path holds nothing before the request; it holds the
  plaintext after a failed send and nothing after a successful one.
\<close>

lemma download_config_after_gate_ex:
  "snd world_ex (ustr ''temp/2160000_safaricom.hc'') = None \<and>
   fst (download_config toy_D (25 * day) (25 * day) (25 * day) True False 42 1
          (fst world_ex) (snd world_ex)) = DownloadError \<and>
   snd (snd (download_config toy_D (25 * day) (25 * day) (25 * day) True False 42 1
          (fst world_ex) (snd world_ex))) (ustr ''temp/2160000_safaricom.hc'') = Some [104, 105] \<and>
   snd (snd (download_config toy_D (25 * day) (25 * day) (25 * day) True True 42 1
          (fst world_ex) (snd world_ex))) (ustr ''temp/2160000_safaricom.hc'') = None"
proof -
  let ?c = "\<lparr> config_id = 1, filename = ustr ''config_0a1b2c3d.hc.enc'', category = ''Safaricom'',
            original_filename = ustr ''safaricom.hc'', file_size = 2, upload_date = 0,
            c_expiry_date = Some 2592000000000, c_total_downloads = 0, is_active = 1 \<rparr>"
  let ?u = "\<lparr> user_id = 42, username = ''bob'', join_date = 1728000000000,
            expiry_date = Some 4320000000000, payment_status = ''approved'',
            total_downloads = 0, is_admin = 0 \<rparr>"
  have t: "temp_decrypted_path_of (25 * day) ?c = (ustr ''temp/2160000_safaricom.hc'')"
    using temp_path_day_25 by (simp add: temp_decrypted_path_of_def)
  have p: "payment_status ?u = ''approved''" by simp
  have e: "\<not> (\<exists>e. expiry_date ?u = Some e \<and> e < 25 * day)" by (simp add: day_def)
  have a: "is_active ?c \<noteq> 0" by simp
  have b: "snd world_ex (ustr ''configs/'' @ filename ?c) =
     Some [7, 7, 7, 7, 7, 7, 7, 7, 7, 7, 7, 7, 7, 7, 7, 7,
           112, 111, 10, 10, 10, 10, 10, 10, 10, 10, 10, 10, 10, 10, 10, 10]"
    using world_ex_blob by (simp add: ustr_append [symmetric])
  note download_config_after_gate [where fs = "snd world_ex" and D = toy_D
      and t_tmp = "25 * day" and t_rec = "25 * day",
      OF world_ex_user p e world_ex_config a b toy_decrypt_blob, unfolded t]
  then show ?thesis using world_ex_no_temp by simp
qed

section \<open>Lemmas on the sweep and on the stored statuses\<close>

lemma expired_user_row_iff:
  "expired_user_row now u \<longleftrightarrow>
     payment_status u = ''approved'' \<and> (\<exists>e. expiry_date u = Some e \<and> e < now) \<and>
     user_id u \<noteq> operator_id"
  by (cases "expiry_date u") (auto simp: expired_user_row_def operator_id_def)

lemma db_sweep_users:
  "users db_sweep =
     [\<lparr> user_id = 7108127485, username = ''nexanetadmin'', join_date = 0,
        expiry_date = Some 1900800000000, payment_status = ''approved'', total_downloads = 0,
        is_admin = 1 \<rparr>,
      \<lparr> user_id = 42, username = ''bob'', join_date = 1728000000000,
        expiry_date = Some 4320000000000, payment_status = ''approved'',
        total_downloads = 0, is_admin = 0 \<rparr>,
      \<lparr> user_id = 43, username = ''eve'', join_date = 1814400000000,
        expiry_date = Some 1814400000000, payment_status = ''pending'',
        total_downloads = 0, is_admin = 0 \<rparr>]"
  by code_simp

lemma list_all_update_users_where:
  assumes "list_all P us" and "\<And>u. P u \<Longrightarrow> P (f u)"
  shows "list_all P (update_users_where uid f us)"
  using assms by (induction us) (simp_all add: update_users_where_def)

lemma statuses_ok_create_tables: "statuses_ok (create_tables now)"
  by (simp add: statuses_ok_def create_tables_def insert_or_ignore_user_def written_statuses_def)

lemma statuses_ok_add_user: "statuses_ok db \<Longrightarrow> statuses_ok (add_user now uid uname db)"
  by (simp add: statuses_ok_def add_user_def insert_or_ignore_user_def written_statuses_def)

lemma statuses_ok_update_payment_status:
  assumes "statuses_ok db" and "st \<in> set written_statuses"
  shows "statuses_ok (update_payment_status uid st db)"
  using assms
  by (simp add: statuses_ok_def update_payment_status_def list_all_update_users_where)

lemma statuses_ok_update_user_expiry:
  assumes "statuses_ok db"
  shows "statuses_ok (update_user_expiry now uid days db)"
proof (cases "get_user db uid")
  case None
  then show ?thesis using assms by (simp add: update_user_expiry_def)
next
  case (Some u)
  have "list_all (\<lambda>u. payment_status u \<in> set written_statuses)
          (update_users_where uid
             (\<lambda>v. v\<lparr> expiry_date := Some e, payment_status := ''approved'' \<rparr>) (users db))" for e
    using assms unfolding statuses_ok_def
    by (rule list_all_update_users_where) (simp add: written_statuses_def)
  then show ?thesis using Some by (simp add: statuses_ok_def update_user_expiry_def Let_def)
qed

lemma users_update_payment: "users (update_payment t pid st note db) = users db"
  by (simp add: update_payment_def Let_def)

lemma users_add_payment: "users (snd (add_payment now uid amt proof_path db)) = users db"
  by (simp add: add_payment_def)

lemma statuses_ok_cong: "users db' = users db \<Longrightarrow> statuses_ok db' = statuses_ok db"
  by (simp add: statuses_ok_def)

lemma statuses_ok_handle_payment_proof:
  assumes "statuses_ok db"
  shows "statuses_ok (handle_payment_proof now uid proof_path db)"
proof (cases "get_user db uid")
  case None
  then show ?thesis using assms by (simp add: handle_payment_proof_def)
next
  case (Some u)
  obtain pid db1 where r: "add_payment now uid 200 proof_path db = (pid, db1)"
    by (cases "add_payment now uid 200 proof_path db")
  have "users db1 = users db" using users_add_payment [of now uid 200 proof_path db] r by simp
  then have s1: "statuses_ok db1" using assms by (simp add: statuses_ok_def)
  have s2: "statuses_ok (update_payment_status uid ''pending'' db1)"
    by (rule statuses_ok_update_payment_status [OF s1]) (simp add: written_statuses_def)
  show ?thesis
    using Some r s1 s2 by (simp add: handle_payment_proof_def)
qed

lemma statuses_ok_approve_payment:
  assumes "statuses_ok db"
  shows "statuses_ok (snd (approve_payment t_proc now caller pid db))"
proof -
  have s: "statuses_ok (update_payment t_proc pid st nt db)" for st nt
    using assms statuses_ok_cong [OF users_update_payment] by simp
  show ?thesis
    using assms s
    by (simp add: approve_payment_def statuses_ok_update_user_expiry split: option.split)
qed

lemma statuses_ok_reject_payment:
  assumes "statuses_ok db"
  shows "statuses_ok (snd (reject_payment t_proc caller pid db))"
proof -
  have s: "statuses_ok (update_payment t_proc pid st nt db)" for st nt
    using assms statuses_ok_cong [OF users_update_payment] by simp
  have "statuses_ok (update_payment_status uid ''rejected''
          (update_payment t_proc pid ''rejected'' ''Rejected by admin'' db))" for uid
    by (rule statuses_ok_update_payment_status [OF s]) (simp add: written_statuses_def)
  then show ?thesis
    using assms by (simp add: reject_payment_def split: option.split)
qed

lemma statuses_ok_process_expire_user:
  assumes "statuses_ok db"
  shows "statuses_ok (process_expire_user now caller uid db)"
proof -
  have "list_all (\<lambda>u. payment_status u \<in> set written_statuses)
          (update_users_where uid (\<lambda>v. v\<lparr> expiry_date := Some e \<rparr>) (users db))" for e
    using assms unfolding statuses_ok_def
    by (rule list_all_update_users_where) simp
  then show ?thesis
    using assms by (simp add: process_expire_user_def statuses_ok_def split: option.split)
qed

lemma statuses_ok_increment_downloads:
  assumes "statuses_ok db"
  shows "statuses_ok (increment_downloads uid db)"
proof -
  have "list_all (\<lambda>u. payment_status u \<in> set written_statuses)
          (update_users_where uid (\<lambda>v. v\<lparr> total_downloads := total_downloads v + 1 \<rparr>)
             (users db))"
    using assms unfolding statuses_ok_def
    by (rule list_all_update_users_where) simp
  then show ?thesis by (simp add: increment_downloads_def statuses_ok_def)
qed

lemma users_record_download: "users (record_download now uid cid db) = users db"
  by (simp add: record_download_def)

lemma statuses_ok_download_config:
  assumes "statuses_ok db"
  shows "statuses_ok (fst (snd (download_config D now t_tmp t_rec is_member send_ok uid cid
                                  db fs)))"
proof -
  have "statuses_ok (increment_downloads uid (record_download t_rec uid cid db))"
    using assms statuses_ok_cong [OF users_record_download]
    by (intro statuses_ok_increment_downloads) simp
  then show ?thesis
    using assms
    by (simp add: download_config_def Let_def split: option.split prod.split bool.split)
qed

lemma users_add_config:
  "users (snd (add_config now fname orig cat fsize expiry_days db)) = users db"
  by (simp add: add_config_def)

lemma users_handle_upload:
  "users (fst (snd (handle_upload E lower iv now t_add hash_digest caller awaiting document db fs)))
     = users db"
  by (simp add: handle_upload_def Let_def add_config_def
      split: option.split prod.split bool.split)

lemma users_delete_config_handler:
  "users (fst (delete_config_handler caller cid db fs)) = users db"
  by (simp add: delete_config_handler_def delete_config_def split: option.split)

lemma statuses_ok_sweep:
  assumes "statuses_ok db"
  shows "statuses_ok (snd (delete_expired_configs t_configs
                             (snd (delete_expired_users t_users db))))"
  using assms
  by (simp add: statuses_ok_def delete_expired_configs_def delete_expired_users_def
      list_all_iff)

lemma statuses_ok_step:
  assumes "statuses_ok (fst w)"
  shows "statuses_ok (fst (step E D lower ev w))"
proof (cases w)
  case (Pair db fs)
  then have ok: "statuses_ok db" using assms by simp
  show ?thesis
  proof (cases ev)
    case (Start now uid uname)
    then show ?thesis using Pair ok by (simp add: statuses_ok_add_user)
  next
    case (PaymentProof now uid proof_path)
    then show ?thesis using Pair ok by (simp add: statuses_ok_handle_payment_proof)
  next
    case (Approve t_proc now caller pid)
    then show ?thesis using Pair ok by (simp add: statuses_ok_approve_payment)
  next
    case (Reject t_proc caller pid)
    then show ?thesis using Pair ok by (simp add: statuses_ok_reject_payment)
  next
    case (ExpireUser now caller uid)
    then show ?thesis using Pair ok by (simp add: statuses_ok_process_expire_user)
  next
    case (Download now t_tmp t_rec is_member send_ok uid cid)
    then show ?thesis using Pair ok by (simp add: statuses_ok_download_config)
  next
    case (Upload iv now t_add hash_digest caller awaiting document)
    then show ?thesis
      using Pair ok statuses_ok_cong [OF users_handle_upload] by simp
  next
    case (DeleteConfig caller cid)
    then show ?thesis
      using Pair ok statuses_ok_cong [OF users_delete_config_handler] by simp
  next
    case (Sweep t_users t_configs)
    then show ?thesis using Pair ok by (simp add: statuses_ok_sweep)
  qed
qed

lemma statuses_ok_run:
  "statuses_ok (fst w) \<Longrightarrow> statuses_ok (fst (run E D lower evs w))"
  by (induction evs arbitrary: w) (simp_all add: statuses_ok_step)

lemma find_snoc:
  "find P (xs @ [x]) =
     (case find P xs of None \<Rightarrow> if P x then Some x else None | Some y \<Rightarrow> Some y)"
  by (induction xs) simp_all

lemma get_user_add_user_fresh:
  assumes "get_user db uid = None"
  shows "get_user (add_user now uid uname db) uid =
           Some \<lparr> user_id = uid, username = uname, join_date = now, expiry_date = None,
                  payment_status = ''pending'', total_downloads = 0, is_admin = 0 \<rparr>"
proof -
  have n: "\<not> (\<exists>v \<in> set (users db). user_id v = uid)"
    using assms by (simp add: get_user_def find_None_iff)
  show ?thesis
    using assms n by (simp add: add_user_def insert_or_ignore_user_def get_user_def find_snoc)
qed

lemma get_user_add_payment:
  "get_user (snd (add_payment now uid' amt proof_path db)) uid = get_user db uid"
  by (simp add: get_user_def add_payment_def)

section \<open>Lemmas on the codec\<close>

lemma pad_length: "length (pad data block_size) mod block_size = 0"
proof -
  let ?n = "length data"
  have "(?n + (16 - ?n mod 16)) mod 16 = 0" by presburger
  then show ?thesis by (simp add: pad_def block_size_def Let_def)
qed

lemma unpad_pad: "unpad (pad data block_size) block_size = Inr data"
proof -
  let ?k = "16 - length data mod 16"
  let ?w = "of_nat ?k :: byte"
  have k: "1 \<le> ?k" "?k \<le> 16" by simp_all
  have p: "pad data 16 = data @ replicate ?k ?w"
    by (simp add: pad_def Let_def)
  have len: "length (data @ replicate ?k ?w) = length data + ?k" by simp
  have m: "(length data + ?k) mod 16 = 0" by presburger
  have l: "last (data @ replicate ?k ?w) = ?w" using k by simp
  have u: "unat ?w = ?k"
  proof -
    have "?k mod 2 ^ LENGTH(8) = ?k" using k by simp
    then show ?thesis by (simp only: unat_of_nat)
  qed
  have g: "length data + ?k \<noteq> 0" using k by simp
  have lt: "length data mod 16 < 16" by simp
  have mn: "\<not> (?k < 1 \<or> ?k > min 16 (length data + ?k))"
    using lt by (auto simp: min_def)
  have dr: "drop (length data + ?k - ?k) (data @ replicate ?k ?w) = replicate ?k ?w" by simp
  have tk: "take (length data + ?k - ?k) (data @ replicate ?k ?w) = data" by simp
  show ?thesis
    unfolding block_size_def p unpad_def Let_def len l u
    by (simp only: g m mn dr tk if_False if_True simp_thms)
qed

lemma xor_bytes_cancel:
  "length a = length b \<Longrightarrow> xor_bytes (xor_bytes a b) b = a"
proof (induction a arbitrary: b)
  case Nil
  then show ?case by (simp add: xor_bytes_def)
next
  case (Cons x a)
  then obtain y b' where b: "b = y # b'" by (cases b) simp_all
  have "xor_bytes (xor_bytes a b') b' = a" using Cons b by simp
  moreover have "xor (xor x y) y = x" by (simp add: xor.assoc)
  ultimately show ?case using b by (simp add: xor_bytes_def)
qed

lemma length_xor_bytes: "length a = length b \<Longrightarrow> length (xor_bytes a b) = length a"
  by (simp add: xor_bytes_def)

lemma cbc_roundtrip:
  assumes c: "\<forall>b. length b = block_size \<longrightarrow> length (E b) = block_size \<and> D (E b) = b"
  shows "length prev = block_size \<Longrightarrow> \<forall>p \<in> set ps. length p = block_size \<Longrightarrow>
         cbc_decrypt D prev (cbc_encrypt E prev ps) = ps \<and>
         (\<forall>q \<in> set (cbc_encrypt E prev ps). length q = block_size) \<and>
         length (cbc_encrypt E prev ps) = length ps"
proof (induction ps arbitrary: prev)
  case Nil
  then show ?case by simp
next
  case (Cons p ps)
  have lp: "length p = block_size" using Cons.prems by simp
  have lx: "length (xor_bytes p prev) = block_size"
    using lp Cons.prems(1) by (simp add: length_xor_bytes)
  let ?c = "E (xor_bytes p prev)"
  have lc: "length ?c = block_size" and dc: "D ?c = xor_bytes p prev"
    using c lx by simp_all
  have x: "xor_bytes (D ?c) prev = p"
    unfolding dc using lp Cons.prems(1) by (simp add: xor_bytes_cancel)
  have ih: "cbc_decrypt D ?c (cbc_encrypt E ?c ps) = ps \<and>
         (\<forall>q \<in> set (cbc_encrypt E ?c ps). length q = block_size) \<and>
         length (cbc_encrypt E ?c ps) = length ps"
    using Cons.IH [OF lc] Cons.prems(2) by simp
  show ?case using ih x lc by (simp add: Let_def)
qed

lemma blocks_props:
  "length buf = n * block_size \<Longrightarrow>
   concat (blocks n buf) = buf \<and> (\<forall>b \<in> set (blocks n buf). length b = block_size) \<and>
   length (blocks n buf) = n"
proof (induction n arbitrary: buf)
  case 0
  then show ?case by simp
next
  case (Suc n)
  have l: "length (drop block_size buf) = n * block_size" using Suc.prems by simp
  have t: "length (take block_size buf) = block_size" using Suc.prems by simp
  show ?case using Suc.IH [OF l] t by simp
qed

lemma blocks_concat:
  "\<forall>c \<in> set cs. length c = block_size \<Longrightarrow> blocks (length cs) (concat cs) = cs"
  by (induction cs) simp_all

lemma length_concat_blocks:
  "\<forall>c \<in> set cs. length c = block_size \<Longrightarrow> length (concat cs) = length cs * block_size"
  by (induction cs) simp_all

lemma cbc_bytes_roundtrip:
  assumes c: "\<forall>b. length b = block_size \<longrightarrow> length (E b) = block_size \<and> D (E b) = b"
    and iv: "length iv = block_size"
    and lP: "length P = n * block_size"
  shows "length (concat (cbc_encrypt E iv (blocks n P))) = n * block_size \<and>
         concat (cbc_decrypt D iv
           (blocks n (concat (cbc_encrypt E iv (blocks n P))))) = P"
proof -
  let ?ps = "blocks n P"
  let ?cs = "cbc_encrypt E iv ?ps"
  have bp: "concat ?ps = P \<and> (\<forall>b \<in> set ?ps. length b = block_size) \<and> length ?ps = n"
    using lP by (rule blocks_props)
  then have ps: "\<forall>p \<in> set ?ps. length p = block_size" by blast
  have cr: "cbc_decrypt D iv ?cs = ?ps \<and> (\<forall>q \<in> set ?cs. length q = block_size) \<and>
            length ?cs = length ?ps"
    using iv ps by (rule cbc_roundtrip [OF c])
  then have cs: "\<forall>q \<in> set ?cs. length q = block_size" by blast
  have lcs: "length ?cs = n" using cr bp by simp
  have lc: "length (concat ?cs) = n * block_size"
    using length_concat_blocks [OF cs] lcs by simp
  have "blocks (length ?cs) (concat ?cs) = ?cs" using cs by (rule blocks_concat)
  then have bl: "blocks n (concat ?cs) = ?cs" using lcs by simp
  have "concat (cbc_decrypt D iv (blocks n (concat ?cs))) = P"
    unfolding bl using cr bp by simp
  then show ?thesis using lc by simp
qed

lemma decrypt_encrypt_bytes:
  assumes c: "\<forall>b. length b = block_size \<longrightarrow> length (E b) = block_size \<and> D (E b) = b"
    and iv: "length iv = block_size"
  shows "\<exists>ct. encrypt_bytes E iv B = Inr (iv @ ct) \<and> decrypt_bytes D (iv @ ct) = Inr B"
proof -
  obtain P where P: "P = pad B block_size" by simp
  obtain n where n: "n = length P div block_size" by simp
  have m: "length P mod block_size = 0" unfolding P by (rule pad_length)
  have "block_size dvd length P" using m by (simp only: mod_eq_0_iff_dvd)
  then have "length P div block_size * block_size = length P" by (rule dvd_div_mult_self)
  then have lP: "length P = n * block_size" unfolding n by (rule sym)
  obtain ct where ct: "ct = concat (cbc_encrypt E iv (blocks n P))" by simp
  have r: "length ct = n * block_size \<and>
           concat (cbc_decrypt D iv (blocks n ct)) = P"
    unfolding ct by (rule cbc_bytes_roundtrip [OF c iv lP])
  have e: "encrypt_bytes E iv B = Inr (iv @ ct)"
    unfolding encrypt_bytes_def Let_def ct n P using iv pad_length [of B] by simp
  have dv: "length ct div block_size = n" using r by (simp add: block_size_def)
  have md: "length ct mod block_size = 0" using r by simp
  have tk: "take block_size (iv @ ct) = iv" using iv by simp
  have dr: "drop block_size (iv @ ct) = ct" using iv by simp
  have up: "unpad P block_size = Inr B" unfolding P by (rule unpad_pad)
  have d: "decrypt_bytes D (iv @ ct) = Inr B"
    unfolding decrypt_bytes_def Let_def tk dr dv
    using iv md r up by simp
  from e d show ?thesis by blast
qed

lemma toy_cipher_inverse:
  "\<forall>b. length b = block_size \<longrightarrow> length (toy_E b) = block_size \<and> toy_D (toy_E b) = b"
  by (simp add: toy_E_def toy_D_def comp_def)

lemma toy_encrypt_ex:
  "encrypt_bytes toy_E iv_ex [104, 105] =
     Inr (iv_ex @ [112, 111, 10, 10, 10, 10, 10, 10, 10, 10, 10, 10, 10, 10, 10, 10])"
  by code_simp

lemma db_swept_value:
  "db_swept =
     \<lparr> users =
         [\<lparr> user_id = 7108127485, username = ''nexanetadmin'', join_date = 0,
            expiry_date = None, payment_status = ''approved'', total_downloads = 0,
            is_admin = 1 \<rparr>],
       configs =
         [\<lparr> config_id = 1, filename = ustr ''config_0a1b2c3d.hc.enc'', category = ''Safaricom'',
            original_filename = ustr ''safaricom.hc'', file_size = 2, upload_date = 0,
            c_expiry_date = Some 2592000000000, c_total_downloads = 0, is_active = 1 \<rparr>],
       payments =
         [\<lparr> payment_id = 1, p_user_id = 42, amount = 200, payment_date = 1728000000000,
            payment_proof = ''payments/payment_42_1728000.jpg'', p_status = ''approved'',
            admin_note = Some ''Approved by admin'', processed_date = Some 1728000000000 \<rparr>],
       downloads = [], next_config_id = 2, next_payment_id = 2, next_download_id = 1 \<rparr>"
  by code_simp

section \<open>Lemmas on file names and on the upload handler\<close>

lemma sep_value: "sep = 47" by (simp add: sep_def)
lemma extsep_value: "extsep = 46" by (simp add: extsep_def)
























section \<open>C1: the expiry written on approval\<close>

text \<open>
  C1. When an administrator approves an existing payment whose owner has a user row, the
  handler answers with the approval message and the owner's row becomes: expiry = (the
  stored expiry when there is one, else the clock of the approval) plus 30 days, payment
  status \<open>approved\<close>; no other column of the row changes. So a null expiry yields
  now + 30 days and a future expiry \<open>T\<close> yields \<open>T\<close> + 30 days, as the claim says.
  \<open>update_user_expiry\<close> never compares the stored expiry with the clock, so a past
  expiry \<open>T\<close> yields \<open>T\<close> + 30 days as well, where the claim asks for now + 30
  days: a user whose approval comes after the expiry gets fewer than the 30 days the
  approval message promises, and none at all when it comes more than 30 days after.
\<close>

theorem approve_payment_expiry:
  assumes "caller_is_admin db caller"
    and "get_payment_by_id db pid = Some p"
    and "get_user db (p_user_id p) = Some u"
  shows "fst (approve_payment t_proc now caller pid db) = PaymentApproved \<and>
         get_user (snd (approve_payment t_proc now caller pid db)) (p_user_id p) =
           Some (u\<lparr> expiry_date :=
                      Some ((case expiry_date u of Some T \<Rightarrow> T | None \<Rightarrow> now)
                            + timedelta_days 30),
                    payment_status := ''approved'' \<rparr>)"
  using assms
  by (simp add: approve_payment_def get_user_update_user_expiry get_user_update_payment)

theorem approve_payment_expiry_witness:
  "caller_is_admin db_expired 7108127485 \<and>
   map_option p_user_id (get_payment_by_id db_expired 1) = Some 42 \<and>
   map_option expiry_date (get_user db_expired 42) = Some (Some (4 * day)) \<and>
   fst (approve_payment (6 * day) (6 * day) 7108127485 1 db_expired) = PaymentApproved \<and>
   map_option (\<lambda>u. (expiry_date u, payment_status u))
     (get_user (snd (approve_payment (6 * day) (6 * day) 7108127485 1 db_expired)) 42)
     = Some (Some (4 * day + timedelta_days 30), ''approved'')"
proof -
  obtain p where p: "get_payment_by_id db_expired 1 = Some p" and pu: "p_user_id p = 42"
    by (simp add: db_expired_value get_payment_by_id_def get_pending_payments_def
        get_user_def)
  obtain u where u: "get_user db_expired 42 = Some u" and ue: "expiry_date u = Some (4 * day)"
    by (simp add: db_expired_value get_user_def day_def)
  have a: "caller_is_admin db_expired 7108127485"
    by (simp add: db_expired_value caller_is_admin_def get_user_def)
  have u': "get_user db_expired (p_user_id p) = Some u" using u pu by simp
  from approve_payment_expiry [OF a p u', of "6 * day" "6 * day"]
  show ?thesis using a p pu u ue by simp
qed

text \<open>
  The failing runs. User 42 was expired by the operator on day 5, so the stored expiry is
  day 4. When the payment is approved on day 6 the claim asks for day 6 + 30 days; the
  code writes day 4 + 30 days = day 34. When the same payment is approved on day 40
  instead, the code writes day 34 again: the subscription is over before it starts, and
  the sweep of day 41 removes the user.
\<close>

theorem approve_past_expiry_counterexample:
  "map_option expiry_date (get_user db_expired 42) = Some (Some (4 * day)) \<and>
   4 * day < 6 * day \<and>
   fst (approve_payment (6 * day) (6 * day) 7108127485 1 db_expired) = PaymentApproved \<and>
   map_option expiry_date
     (get_user (snd (approve_payment (6 * day) (6 * day) 7108127485 1 db_expired)) 42)
     = Some (Some (34 * day)) \<and>
   34 * day \<noteq> 6 * day + timedelta_days 30 \<and>
   fst (approve_payment (40 * day) (40 * day) 7108127485 1 db_expired) = PaymentApproved \<and>
   map_option (\<lambda>u. (expiry_date u, payment_status u))
     (get_user (snd (approve_payment (40 * day) (40 * day) 7108127485 1 db_expired)) 42)
     = Some (Some (34 * day), ''approved'') \<and>
   34 * day < 40 * day \<and>
   get_user (snd (delete_expired_users (41 * day)
               (snd (approve_payment (40 * day) (40 * day) 7108127485 1 db_expired)))) 42
     = None"
  by code_simp

section \<open>C2: approving a payment that is already processed\<close>

text \<open>
  C2, as the code has it. \<open>approve_payment\<close> never reads the status of the payment:
  there is no check for an already processed payment anywhere in the handler. When an
  administrator approves an existing payment whose status is already \<open>approved\<close> or
  \<open>rejected\<close>, the handler answers with the approval message and every payment row
  with that id ends with status \<open>approved\<close> and a fresh processed time. When the
  owner of the payment has a user row, that row is extended once more: its expiry becomes
  (the stored expiry when there is one, else the clock) plus 30 days and its status
  \<open>approved\<close>. When the owner has no user row any more, no user row changes.
\<close>

theorem approve_terminal_payment:
  assumes "caller_is_admin db caller"
    and "get_payment_by_id db pid = Some p"
    and "p_status p = ''approved'' \<or> p_status p = ''rejected''"
  shows "fst (approve_payment t_proc now caller pid db) = PaymentApproved \<and>
         (\<forall>q \<in> set (payments (snd (approve_payment t_proc now caller pid db))).
            payment_id q = pid \<longrightarrow> p_status q = ''approved'' \<and> processed_date q = Some t_proc) \<and>
         (case get_user db (p_user_id p) of
            Some u \<Rightarrow>
              get_user (snd (approve_payment t_proc now caller pid db)) (p_user_id p) =
                Some (u\<lparr> expiry_date :=
                           Some ((case expiry_date u of Some T \<Rightarrow> T | None \<Rightarrow> now)
                                 + timedelta_days 30),
                         payment_status := ''approved'' \<rparr>)
          | None \<Rightarrow> users (snd (approve_payment t_proc now caller pid db)) = users db)"
proof -
  let ?db1 = "update_payment t_proc pid ''approved'' ''Approved by admin'' db"
  have r: "approve_payment t_proc now caller pid db =
      (PaymentApproved, update_user_expiry now (p_user_id p) 30 ?db1)"
    using assms(1,2) by (simp add: approve_payment_def)
  have a: "\<forall>q \<in> set (payments (update_user_expiry now (p_user_id p) 30 ?db1)).
             payment_id q = pid \<longrightarrow> p_status q = ''approved'' \<and> processed_date q = Some t_proc"
  proof (intro ballI impI)
    fix q assume q: "q \<in> set (payments (update_user_expiry now (p_user_id p) 30 ?db1))"
      and i: "payment_id q = pid"
    from q have "q \<in> set (payments ?db1)" by (simp only: payments_update_user_expiry)
    from payments_update_payment [OF this i]
    show "p_status q = ''approved'' \<and> processed_date q = Some t_proc" by simp
  qed
  have b: "case get_user db (p_user_id p) of
            Some u \<Rightarrow>
              get_user (update_user_expiry now (p_user_id p) 30 ?db1) (p_user_id p) =
                Some (u\<lparr> expiry_date :=
                           Some ((case expiry_date u of Some T \<Rightarrow> T | None \<Rightarrow> now)
                                 + timedelta_days 30),
                         payment_status := ''approved'' \<rparr>)
          | None \<Rightarrow> users (update_user_expiry now (p_user_id p) 30 ?db1) = users db"
  proof (cases "get_user db (p_user_id p)")
    case None
    then have "get_user ?db1 (p_user_id p) = None" by (simp add: get_user_update_payment)
    then have "update_user_expiry now (p_user_id p) 30 ?db1 = ?db1"
      by (simp add: update_user_expiry_def)
    then show ?thesis using None by (simp add: users_update_payment)
  next
    case (Some u)
    then have u': "get_user ?db1 (p_user_id p) = Some u" by (simp add: get_user_update_payment)
    show ?thesis using Some by (simp add: get_user_update_user_expiry [OF u'])
  qed
  show ?thesis unfolding r fst_conv snd_conv using a b by (intro conjI) (rule refl)
qed

text \<open>
  The witness, for both cases. In \<open>db_approved\<close> payment 1 is approved and its owner,
  user 42, has expiry day 34: approving it again on day 7 moves the expiry by 30 days. In
  \<open>db_swept\<close> payment 1 is approved and its owner has been removed by the sweep:
  approving it on day 61 is answered with the approval message and leaves the users as
  they were.
\<close>

theorem approve_terminal_payment_witness:
  "caller_is_admin db_approved 7108127485 \<and>
   map_option (\<lambda>p. (p_user_id p, p_status p)) (get_payment_by_id db_approved 1)
     = Some (42, ''approved'') \<and>
   map_option expiry_date (get_user db_approved 42) = Some (Some (34 * day)) \<and>
   fst (approve_payment (7 * day) (7 * day) 7108127485 1 db_approved) = PaymentApproved \<and>
   map_option expiry_date
     (get_user (snd (approve_payment (7 * day) (7 * day) 7108127485 1 db_approved)) 42)
     = Some (Some (34 * day + timedelta_days 30)) \<and>
   caller_is_admin db_swept 7108127485 \<and>
   map_option (\<lambda>p. (p_user_id p, p_status p)) (get_payment_by_id db_swept 1)
     = Some (42, ''approved'') \<and>
   get_user db_swept 42 = None \<and>
   fst (approve_payment (61 * day) (61 * day) 7108127485 1 db_swept) = PaymentApproved \<and>
   users (snd (approve_payment (61 * day) (61 * day) 7108127485 1 db_swept)) = users db_swept"
proof -
  obtain p where p: "get_payment_by_id db_approved 1 = Some p" and pu: "p_user_id p = 42"
      and ps: "p_status p = ''approved''"
    by (simp add: db_approved_value get_payment_by_id_def get_pending_payments_def
        get_user_def)
  obtain u where u: "get_user db_approved 42 = Some u" and ue: "expiry_date u = Some (34 * day)"
    by (simp add: db_approved_value get_user_def day_def)
  have a: "caller_is_admin db_approved 7108127485"
    by (simp add: db_approved_value caller_is_admin_def get_user_def)
  have t: "p_status p = ''approved'' \<or> p_status p = ''rejected''" using ps by simp
  note approve_terminal_payment [OF a p t, of "7 * day" "7 * day", unfolded pu u option.case ue]
  then have first: "fst (approve_payment (7 * day) (7 * day) 7108127485 1 db_approved)
        = PaymentApproved \<and>
      map_option expiry_date
        (get_user (snd (approve_payment (7 * day) (7 * day) 7108127485 1 db_approved)) 42)
        = Some (Some (34 * day + timedelta_days 30))"
    by simp
  obtain p' where p': "get_payment_by_id db_swept 1 = Some p'" and pu': "p_user_id p' = 42"
      and ps': "p_status p' = ''approved''"
    by (simp add: db_swept_value get_payment_by_id_def get_pending_payments_def
        get_user_def)
  have n: "get_user db_swept 42 = None" by (simp add: db_swept_value get_user_def)
  have a': "caller_is_admin db_swept 7108127485"
    by (simp add: db_swept_value caller_is_admin_def get_user_def)
  have t': "p_status p' = ''approved'' \<or> p_status p' = ''rejected''" using ps' by simp
  note approve_terminal_payment [OF a' p' t', of "61 * day" "61 * day",
      unfolded pu' n option.case]
  then have second: "fst (approve_payment (61 * day) (61 * day) 7108127485 1 db_swept)
        = PaymentApproved \<and>
      users (snd (approve_payment (61 * day) (61 * day) 7108127485 1 db_swept))
        = users db_swept"
    by simp
  show ?thesis using first second a p pu ps u ue a' p' pu' ps' n by simp
qed

text \<open>
  The claim as worded fails: payment 1 is already approved and the owner's expiry is day
  34; approving it again on day 7 is answered with the approval message, not with an
  error, and the expiry moves to day 64.
\<close>

theorem approve_twice_counterexample:
  "map_option p_status (get_payment_by_id db_approved 1) = Some ''approved'' \<and>
   map_option expiry_date (get_user db_approved 42) = Some (Some (34 * day)) \<and>
   fst (approve_payment (7 * day) (7 * day) 7108127485 1 db_approved) = PaymentApproved \<and>
   map_option expiry_date
     (get_user (snd (approve_payment (7 * day) (7 * day) 7108127485 1 db_approved)) 42)
     = Some (Some (64 * day)) \<and>
   64 * day \<noteq> 34 * day"
  by code_simp

section \<open>C10: what a rejection changes in the user row\<close>

text \<open>
  C10. When an administrator rejects a pending payment whose owner has a user row, the
  handler answers with the rejection message and the owner's row is the old row with
  payment status \<open>rejected\<close>: the expiry timestamp, the download counter and every
  other column are unchanged. From then on a download request of that user who passes
  the channel-membership check is answered with "payment required", whatever the stored
  expiry is, so unexpired paid time does not keep the user eligible.
\<close>

theorem reject_payment_frame:
  assumes "caller_is_admin db caller"
    and "get_payment_by_id db pid = Some p"
    and "p_status p = ''pending''"
    and "get_user db (p_user_id p) = Some u"
  shows "fst (reject_payment t_proc caller pid db) = PaymentRejected \<and>
         get_user (snd (reject_payment t_proc caller pid db)) (p_user_id p) =
           Some (u\<lparr> payment_status := ''rejected'' \<rparr>) \<and>
         fst (download_config D now t_tmp t_rec True send_ok (p_user_id p) cid
                (snd (reject_payment t_proc caller pid db)) fs) = PaymentRequired"
proof -
  let ?db1 = "update_payment t_proc pid ''rejected'' ''Rejected by admin'' db"
  let ?db2 = "update_payment_status (p_user_id p) ''rejected'' ?db1"
  have r: "reject_payment t_proc caller pid db = (PaymentRejected, ?db2)"
    using assms(1,2) by (simp add: reject_payment_def)
  have u1: "get_user ?db1 (p_user_id p) = Some u"
    using assms(4) by (simp add: get_user_update_payment)
  have u2: "get_user ?db2 (p_user_id p) = Some (u\<lparr> payment_status := ''rejected'' \<rparr>)"
    by (rule get_user_update_payment_status [OF u1])
  have d: "fst (download_config D now t_tmp t_rec True send_ok (p_user_id p) cid ?db2 fs)
           = PaymentRequired"
    by (simp add: download_config_def u2)
  show ?thesis unfolding r fst_conv snd_conv using u2 d by simp
qed

text \<open>
  The witness: user 42 is subscribed until day 50 and has a second payment under review;
  the operator rejects it on day 26, and a download on day 27 is refused.
\<close>

theorem reject_payment_frame_witness:
  "caller_is_admin db_renewing 7108127485 \<and>
   map_option (\<lambda>p. (p_user_id p, p_status p)) (get_payment_by_id db_renewing 2)
     = Some (42, ''pending'') \<and>
   map_option (\<lambda>u. (expiry_date u, total_downloads u)) (get_user db_renewing 42)
     = Some (Some (50 * day), 0) \<and>
   27 * day < 50 * day \<and>
   fst (reject_payment (26 * day) 7108127485 2 db_renewing) = PaymentRejected \<and>
   map_option (\<lambda>u. (payment_status u, expiry_date u, total_downloads u))
     (get_user (snd (reject_payment (26 * day) 7108127485 2 db_renewing)) 42)
     = Some (''rejected'', Some (50 * day), 0) \<and>
   fst (download_config toy_D (27 * day) (27 * day) (27 * day) True True 42 1
          (snd (reject_payment (26 * day) 7108127485 2 db_renewing)) (snd world_ex))
     = PaymentRequired"
proof -
  obtain p where p: "get_payment_by_id db_renewing 2 = Some p" and pu: "p_user_id p = 42"
      and ps: "p_status p = ''pending''"
    by (simp add: db_renewing_value get_payment_by_id_def get_pending_payments_def
        get_user_def)
  obtain u where u: "get_user db_renewing 42 = Some u"
      and ue: "expiry_date u = Some (50 * day)" and ud: "total_downloads u = 0"
    by (simp add: db_renewing_value get_user_def day_def)
  have a: "caller_is_admin db_renewing 7108127485"
    by (simp add: db_renewing_value caller_is_admin_def get_user_def)
  have u': "get_user db_renewing (p_user_id p) = Some u" using u pu by simp
  note reject_payment_frame [OF a p ps u', of "26 * day" toy_D "27 * day" "27 * day"
      "27 * day" True 1 "snd world_ex", unfolded pu]
  then show ?thesis using a p pu ps u ue ud by (simp add: day_def)
qed

section \<open>C3: the order of the checks of a download\<close>

text \<open>
  C3. \<open>download_config\<close> tests, in this order: that the user has a row, that the user
  is a member of the channel, that the payment status is \<open>approved\<close>, that the expiry
  of the subscription is not in the past, and that the file exists with its active flag
  set; the first test that fails decides the reply. Channel membership therefore comes
  before the subscription, and a missing file and an inactive file share one reply. The
  expiry timestamp of the file is not read: storing any other expiry timestamps in the
  files leaves the reply as it was.
\<close>

theorem download_config_check_order:
  "fst (download_config D now t_tmp t_rec is_member send_ok uid cid db fs) =
     (case get_user db uid of
        None \<Rightarrow> UserNotFound
      | Some u \<Rightarrow>
          if \<not> is_member then JoinChannelFirst
          else if payment_status u \<noteq> ''approved'' then PaymentRequired
          else if (\<exists>e. expiry_date u = Some e \<and> e < now) then SubscriptionExpired
          else case get_config db cid of
                 None \<Rightarrow> ConfigNotFoundOrExpired
               | Some c \<Rightarrow>
                   if is_active c = 0 then ConfigNotFoundOrExpired
                   else if \<not> fst (decrypt_file D (ustr ''configs/'' @ filename c)
                                    (temp_decrypted_path_of t_tmp c) fs) then DecryptError
                   else if send_ok then DownloadedOk else DownloadError) \<and>
   fst (download_config D now t_tmp t_rec is_member send_ok uid cid
          (db\<lparr> configs := map (\<lambda>c. c\<lparr> c_expiry_date := g c \<rparr>) (configs db) \<rparr>) fs) =
     fst (download_config D now t_tmp t_rec is_member send_ok uid cid db fs)"
proof (cases "get_user db uid")
  case None
  let ?db' = "db\<lparr> configs := map (\<lambda>c. c\<lparr> c_expiry_date := g c \<rparr>) (configs db) \<rparr>"
  have "get_user ?db' uid = None" using None by (simp add: get_user_configs_update)
  then show ?thesis using None by (simp add: download_config_no_user)
next
  case (Some u)
  let ?db' = "db\<lparr> configs := map (\<lambda>c. c\<lparr> c_expiry_date := g c \<rparr>) (configs db) \<rparr>"
  have u': "get_user ?db' uid = Some u" using Some by (simp add: get_user_configs_update)
  have c': "get_config ?db' cid = map_option (\<lambda>c. c\<lparr> c_expiry_date := g c \<rparr>) (get_config db cid)"
    by (rule get_config_expiry_rewritten)
  have r: "fst (download_config D now t_tmp t_rec is_member send_ok uid cid db fs) =
    (if \<not> is_member then JoinChannelFirst
     else if payment_status u \<noteq> ''approved'' then PaymentRequired
     else if (\<exists>e. expiry_date u = Some e \<and> e < now) then SubscriptionExpired
     else case get_config db cid of
            None \<Rightarrow> ConfigNotFoundOrExpired
          | Some c \<Rightarrow>
              if is_active c = 0 then ConfigNotFoundOrExpired
              else if \<not> fst (decrypt_file D (ustr ''configs/'' @ filename c)
                               (temp_decrypted_path_of t_tmp c) fs) then DecryptError
              else if send_ok then DownloadedOk else DownloadError)"
    by (rule download_config_reply [OF Some])
  have r': "fst (download_config D now t_tmp t_rec is_member send_ok uid cid ?db' fs) =
    (if \<not> is_member then JoinChannelFirst
     else if payment_status u \<noteq> ''approved'' then PaymentRequired
     else if (\<exists>e. expiry_date u = Some e \<and> e < now) then SubscriptionExpired
     else case get_config ?db' cid of
            None \<Rightarrow> ConfigNotFoundOrExpired
          | Some c \<Rightarrow>
              if is_active c = 0 then ConfigNotFoundOrExpired
              else if \<not> fst (decrypt_file D (ustr ''configs/'' @ filename c)
                               (temp_decrypted_path_of t_tmp c) fs) then DecryptError
              else if send_ok then DownloadedOk else DownloadError)"
    by (rule download_config_reply [OF u'])
  have same: "fst (download_config D now t_tmp t_rec is_member send_ok uid cid ?db' fs) =
              fst (download_config D now t_tmp t_rec is_member send_ok uid cid db fs)"
    unfolding r r' c'
    by (cases "get_config db cid") (auto simp: temp_decrypted_path_of_def)
  show ?thesis using r same Some by simp
qed

text \<open>
  Two runs against the claimed order. User 42 of \<open>db_renewing\<close> has status
  \<open>pending\<close> and is not a member of the channel: the reply is the one of the membership
  test, not "payment required". In the example world file 1 expired on day 30 and its
  active flag is still set: on day 40 it is delivered to user 42.
\<close>

theorem download_check_order_counterexample:
  "map_option payment_status (get_user db_renewing 42) = Some ''pending'' \<and>
   fst (download_config toy_D (25 * day) (25 * day) (25 * day) False True 42 1
          db_renewing (snd world_ex)) = JoinChannelFirst \<and>
   map_option (\<lambda>c. (c_expiry_date c, is_active c)) (get_config (fst world_ex) 1)
     = Some (Some (30 * day), 1) \<and>
   30 * day < 40 * day \<and>
   fst (download_config toy_D (40 * day) (40 * day) (40 * day) True True 42 1
          (fst world_ex) (snd world_ex)) = DownloadedOk"
proof -
  obtain u where u: "get_user db_renewing 42 = Some u" and us: "payment_status u = ''pending''"
    by (simp add: db_renewing_value get_user_def)
  have a: "fst (download_config toy_D (25 * day) (25 * day) (25 * day) False True 42 1
          db_renewing (snd world_ex)) = JoinChannelFirst"
    by (simp add: download_config_reply [OF u])
  have b: "fst (download_config toy_D (40 * day) (40 * day) (40 * day) True True 42 1
          (fst world_ex) (snd world_ex)) = DownloadedOk"
    using world_ex_download [of "40 * day" "40 * day" "40 * day" True]
    by (simp add: day_def)
  show ?thesis using u us a b by (simp add: world_ex_config day_def)
qed

section \<open>C4: the plaintext copy of a download\<close>


section \<open>C6: who may download\<close>

text \<open>
  C6. The code has no separate eligibility function: a user is eligible when
  \<open>download_config\<close>, for a channel member, answers neither "payment required" nor
  "subscription expired". For every registered user that is the case exactly when the
  payment status is \<open>approved\<close> and the expiry timestamp is null or not earlier than
  the clock reading. The handler tests \<open>expiry < now\<close>, so a subscription whose expiry
  equals the clock reading is still eligible; every status other than \<open>approved\<close>
  is refused, and a null expiry with status \<open>approved\<close> is eligible at every time.
\<close>

theorem download_eligibility:
  assumes "get_user db uid = Some u"
  shows "fst (download_config D now t_tmp t_rec True send_ok uid cid db fs)
            \<notin> {PaymentRequired, SubscriptionExpired}
          \<longleftrightarrow> payment_status u = ''approved'' \<and>
              (expiry_date u = None \<or> (\<exists>e. expiry_date u = Some e \<and> now \<le> e))"
proof -
  note r = download_config_reply [OF assms, of D now t_tmp t_rec True send_ok cid fs]
  show ?thesis
  proof (cases "payment_status u = ''approved''")
    case False
    then show ?thesis by (simp add: r)
  next
    case True
    show ?thesis
    proof (cases "expiry_date u")
      case None
      then show ?thesis using True by (simp add: r split: option.split)
    next
      case (Some e)
      then show ?thesis using True by (cases "e < now") (simp_all add: r split: option.split)
    qed
  qed
qed

text \<open>
  The witness: user 42 of the example world is approved until day 50 and downloads on
  day 40.
\<close>

theorem download_eligibility_witness:
  "map_option (\<lambda>u. (payment_status u, expiry_date u)) (get_user (fst world_ex) 42)
     = Some (''approved'', Some (50 * day)) \<and>
   40 * day \<le> 50 * day \<and>
   fst (download_config toy_D (40 * day) (40 * day) (40 * day) True True 42 1
          (fst world_ex) (snd world_ex)) \<notin> {PaymentRequired, SubscriptionExpired}"
proof -
  obtain u where u: "get_user (fst world_ex) 42 = Some u"
      and us: "payment_status u = ''approved''" and ue: "expiry_date u = Some (50 * day)"
    by (simp add: world_ex_user day_def)
  have le: "40 * day \<le> 50 * day" by (simp add: day_def)
  from download_eligibility [OF u, of toy_D "40 * day" "40 * day" "40 * day" True 1
      "snd world_ex"]
  have "fst (download_config toy_D (40 * day) (40 * day) (40 * day) True True 42 1
          (fst world_ex) (snd world_ex)) \<notin> {PaymentRequired, SubscriptionExpired}"
    using us ue le by simp
  then show ?thesis using u us ue le by simp
qed

text \<open>
  The counterexample to "strictly in the future": on day 50 exactly, the expiry of user 42
  is not later than the clock reading, and the file is delivered. The sweep of that
  instant keeps the user as well: a subscription counts as over only when its expiry is
  earlier than the clock reading.
\<close>

theorem download_at_expiry_instant_counterexample:
  "map_option (\<lambda>u. (payment_status u, expiry_date u)) (get_user (fst world_ex) 42)
     = Some (''approved'', Some (50 * day)) \<and>
   \<not> (50 * day < 50 * day) \<and>
   fst (download_config toy_D (50 * day) (50 * day) (50 * day) True True 42 1
          (fst world_ex) (snd world_ex)) = DownloadedOk \<and>
   map_option user_id (get_user (snd (delete_expired_users (50 * day) (fst world_ex))) 42)
     = Some 42"
proof -
  have "fst (download_config toy_D (50 * day) (50 * day) (50 * day) True True 42 1
          (fst world_ex) (snd world_ex)) = DownloadedOk"
    using world_ex_download [of "50 * day" "50 * day" "50 * day" True]
    by (simp add: day_def)
  moreover have "map_option user_id
      (get_user (snd (delete_expired_users (50 * day) (fst world_ex))) 42) = Some 42"
    by (simp add: world_ex_db_value delete_expired_users_def expired_user_row_def get_user_def
        day_def)
  ultimately show ?thesis by (simp add: world_ex_user day_def)
qed

section \<open>C8: the users removed by the maintenance sweep\<close>

text \<open>
  C8. \<open>delete_expired_users\<close> keeps, in their order, exactly the user rows that are not
  (approved, with a stored expiry earlier than the clock reading, and not the operator
  account); it returns the number of rows it removed and touches no other table. So a
  row with a null expiry and the row of the operator account always stay, whatever
  their status, and so does every row whose status is not \<open>approved\<close>.
\<close>

theorem delete_expired_users_exact:
  "users (snd (delete_expired_users now db)) =
     filter (\<lambda>u. \<not> (payment_status u = ''approved'' \<and>
                     (\<exists>e. expiry_date u = Some e \<and> e < now) \<and>
                     user_id u \<noteq> operator_id)) (users db) \<and>
   fst (delete_expired_users now db) =
     int (length (filter (\<lambda>u. payment_status u = ''approved'' \<and>
                     (\<exists>e. expiry_date u = Some e \<and> e < now) \<and>
                     user_id u \<noteq> operator_id) (users db))) \<and>
   (\<forall>u \<in> set (users db).
      expiry_date u = None \<or> user_id u = operator_id \<or> payment_status u \<noteq> ''approved''
      \<longrightarrow> u \<in> set (users (snd (delete_expired_users now db)))) \<and>
   configs (snd (delete_expired_users now db)) = configs db \<and>
   payments (snd (delete_expired_users now db)) = payments db \<and>
   downloads (snd (delete_expired_users now db)) = downloads db"
proof -
  have f: "expired_user_row now = (\<lambda>u. payment_status u = ''approved'' \<and>
             (\<exists>e. expiry_date u = Some e \<and> e < now) \<and> user_id u \<noteq> operator_id)"
    by (rule ext) (rule expired_user_row_iff)
  have a: "users (snd (delete_expired_users now db)) =
     filter (\<lambda>u. \<not> (payment_status u = ''approved'' \<and>
                     (\<exists>e. expiry_date u = Some e \<and> e < now) \<and>
                     user_id u \<noteq> operator_id)) (users db)"
    by (simp add: delete_expired_users_def f)
  have b: "fst (delete_expired_users now db) =
     int (length (filter (\<lambda>u. payment_status u = ''approved'' \<and>
                     (\<exists>e. expiry_date u = Some e \<and> e < now) \<and>
                     user_id u \<noteq> operator_id) (users db)))"
    by (simp add: delete_expired_users_def f)
  have c: "\<forall>u \<in> set (users db).
      expiry_date u = None \<or> user_id u = operator_id \<or> payment_status u \<noteq> ''approved''
      \<longrightarrow> u \<in> set (users (snd (delete_expired_users now db)))"
    unfolding a by auto
  have d: "configs (snd (delete_expired_users now db)) = configs db \<and>
   payments (snd (delete_expired_users now db)) = payments db \<and>
   downloads (snd (delete_expired_users now db)) = downloads db"
    by (simp add: delete_expired_users_def)
  from a b c d show ?thesis by (intro conjI) simp_all
qed

text \<open>
  The witness: on day 60 the sweep of \<open>db_sweep\<close> removes user 42 (approved, expired on
  day 50) and nothing else; the operator row (approved, expired on day 22) and user 43
  (pending, expired on day 21) stay.
\<close>

theorem delete_expired_users_exact_witness:
  "map (\<lambda>u. (user_id u, payment_status u, expiry_date u)) (users db_sweep) =
     [(7108127485, ''approved'', Some (22 * day)), (42, ''approved'', Some (50 * day)),
      (43, ''pending'', Some (21 * day))] \<and>
   map user_id (users (snd (delete_expired_users (60 * day) db_sweep))) = [7108127485, 43] \<and>
   fst (delete_expired_users (60 * day) db_sweep) = 1"
  using delete_expired_users_exact [of "60 * day" db_sweep]
  by (simp add: db_sweep_users operator_id_def day_def)

section \<open>C9: the row of a new user and the statuses that are ever stored\<close>

text \<open>
  C9. When \<open>add_user\<close> registers a user who has no row yet, the new row has payment
  status \<open>pending\<close>, a null expiry, zero downloads and no admin flag; after that
  user's payment proof has been received the status is again \<open>pending\<close>, so the two
  situations cannot be told apart by the status. In every store reached from
  \<open>create_tables\<close> by any sequence of handler events, every user row has one of the
  statuses \<open>pending\<close>, \<open>approved\<close>, \<open>rejected\<close>; the status \<open>none\<close> is never
  stored.
\<close>

theorem add_user_defaults:
  assumes "get_user db uid = None"
  shows "get_user (add_user now uid uname db) uid =
           Some \<lparr> user_id = uid, username = uname, join_date = now, expiry_date = None,
                  payment_status = ''pending'', total_downloads = 0, is_admin = 0 \<rparr> \<and>
         map_option payment_status
           (get_user (handle_payment_proof t uid proof_path (add_user now uid uname db)) uid)
           = Some ''pending'' \<and>
         statuses_ok (fst (run E D lower evs (create_tables t0, fs))) \<and>
         (\<forall>u \<in> set (users (fst (run E D lower evs (create_tables t0, fs)))).
            payment_status u \<noteq> ''none'')"
proof -
  let ?row = "\<lparr> user_id = uid, username = uname, join_date = now, expiry_date = None,
                 payment_status = ''pending'', total_downloads = 0, is_admin = 0 \<rparr>"
  let ?db1 = "add_user now uid uname db"
  have a: "get_user ?db1 uid = Some ?row"
    by (rule get_user_add_user_fresh [OF assms])
  have b: "map_option payment_status (get_user (handle_payment_proof t uid proof_path ?db1) uid)
             = Some ''pending''"
  proof -
    obtain pid db2 where r: "add_payment t uid 200 proof_path ?db1 = (pid, db2)"
      by (cases "add_payment t uid 200 proof_path ?db1")
    have u1: "get_user db2 uid = Some ?row"
      using a get_user_add_payment [of t uid 200 proof_path ?db1 uid] r by simp
    have u2: "get_user (update_payment_status uid ''pending'' db2) uid =
                Some (?row\<lparr> payment_status := ''pending'' \<rparr>)"
      by (rule get_user_update_payment_status [OF u1])
    show ?thesis
      using a r u1 u2 by (simp add: handle_payment_proof_def)
  qed
  have c: "statuses_ok (fst (run E D lower evs (create_tables t0, fs)))"
    by (rule statuses_ok_run) (simp add: statuses_ok_create_tables)
  have d: "\<forall>u \<in> set (users (fst (run E D lower evs (create_tables t0, fs)))).
             payment_status u \<noteq> ''none''"
    using c by (auto simp: statuses_ok_def list_all_iff written_statuses_def)
  from a b c d show ?thesis by (intro conjI)
qed

text \<open>
  The witness: user 42 has no row in the fresh store and registers on day 20; the
  history of the example world is one run of the handlers.
\<close>

theorem add_user_defaults_witness:
  "get_user (create_tables 0) 42 = None \<and>
   get_user (add_user (20 * day) 42 ''bob'' (create_tables 0)) 42 =
     Some \<lparr> user_id = 42, username = ''bob'', join_date = 20 * day, expiry_date = None,
            payment_status = ''pending'', total_downloads = 0, is_admin = 0 \<rparr> \<and>
   map_option payment_status
     (get_user (handle_payment_proof (20 * day) 42 ''payments/payment_42_1728000.jpg''
                  (add_user (20 * day) 42 ''bob'' (create_tables 0))) 42) = Some ''pending'' \<and>
   statuses_ok (fst world_ex) \<and>
   map payment_status (users (fst world_ex)) = [''approved'', ''approved'']"
proof -
  have n: "get_user (create_tables 0) 42 = None"
    by (simp add: create_tables_def insert_or_ignore_user_def get_user_def operator_id_def)
  note add_user_defaults [OF n, of "20 * day" "''bob''" "20 * day"
      "''payments/payment_42_1728000.jpg''" toy_E toy_D toy_lower history_ex 0 Map.empty,
      folded world_ex_def]
  then show ?thesis using n by (simp add: world_ex_db_value)
qed

section \<open>C7: the extension gate of an upload\<close>



section \<open>C5: decrypting what was encrypted\<close>

text \<open>
  C5. AES under the derived key is a parameter of the model: \<open>E\<close> encrypts one
  16-byte block and \<open>D\<close> is its inverse on 16-byte blocks. For every buffer \<open>B\<close>
  and every 16-byte IV, encryption succeeds and its output is the IV followed by the
  CBC ciphertext of the PKCS#7-padded buffer; decryption, which takes the first 16 bytes
  as IV, decrypts the rest and removes the padding, returns exactly \<open>B\<close>. The same
  holds for the two file operations: \<open>decrypt_file\<close> on the output of
  \<open>encrypt_file\<close> writes \<open>B\<close>.
\<close>

theorem decrypt_encrypt_roundtrip:
  assumes "\<forall>b. length b = block_size \<longrightarrow> length (E b) = block_size \<and> D (E b) = b"
    and "length iv = block_size"
  shows "\<exists>ct. encrypt_bytes E iv B = Inr (iv @ ct) \<and>
              decrypt_bytes D (iv @ ct) = Inr B \<and>
              (fs input_path = Some B \<longrightarrow>
                 encrypt_file E iv input_path enc_path fs = (True, fs(enc_path \<mapsto> iv @ ct)) \<and>
                 decrypt_file D enc_path out_path (fs(enc_path \<mapsto> iv @ ct)) =
                   (True, (fs(enc_path \<mapsto> iv @ ct))(out_path \<mapsto> B)))"
proof -
  obtain ct where e: "encrypt_bytes E iv B = Inr (iv @ ct)"
      and d: "decrypt_bytes D (iv @ ct) = Inr B"
    using decrypt_encrypt_bytes [OF assms, of B] by blast
  have f: "fs input_path = Some B \<longrightarrow>
             encrypt_file E iv input_path enc_path fs = (True, fs(enc_path \<mapsto> iv @ ct)) \<and>
             decrypt_file D enc_path out_path (fs(enc_path \<mapsto> iv @ ct)) =
               (True, (fs(enc_path \<mapsto> iv @ ct))(out_path \<mapsto> B))"
    using e d by (simp add: encrypt_file_def decrypt_file_def)
  from e d f show ?thesis by blast
qed

text \<open>
  The witness, with the stand-in cipher: the two bytes \<open>hi\<close> under an IV of sixteen
  sevens.
\<close>

theorem decrypt_encrypt_roundtrip_witness:
  "length iv_ex = block_size \<and>
   encrypt_bytes toy_E iv_ex [104, 105] =
     Inr (iv_ex @ [112, 111, 10, 10, 10, 10, 10, 10, 10, 10, 10, 10, 10, 10, 10, 10]) \<and>
   decrypt_bytes toy_D
     (iv_ex @ [112, 111, 10, 10, 10, 10, 10, 10, 10, 10, 10, 10, 10, 10, 10, 10])
     = Inr [104, 105]"
proof -
  have l: "length iv_ex = block_size" by (simp add: iv_ex_def block_size_def)
  from decrypt_encrypt_roundtrip [OF toy_cipher_inverse l, of "[104, 105]"]
  obtain ct where e: "encrypt_bytes toy_E iv_ex [104, 105] = Inr (iv_ex @ ct)"
      and d: "decrypt_bytes toy_D (iv_ex @ ct) = Inr [104, 105]"
    by blast
  have "ct = [112, 111, 10, 10, 10, 10, 10, 10, 10, 10, 10, 10, 10, 10, 10, 10]"
    using e unfolding toy_encrypt_ex by simp
  then show ?thesis using l e d by simp
qed

end
